theory Spec2Isabelle
  imports Complex_Main "HOL-Library.Sublist" "HOL-Library.AList" "HOL-Library.Multiset"
begin

section \<open>Strings of the runtime\<close>

text \<open>
  The program is TypeScript run by a JavaScript engine. A JavaScript string is a sequence of
  UTF-16 code units; \<open>length\<close>, \<open>substr\<close>, \<open>indexOf\<close> and \<open>split\<close> count code units.
  A code unit is modelled as a natural number (below 65536 in every string the engine can
  build) and a string as the list of its code units. \<open>str\<close> turns an ASCII literal of the
  theory into such a string.
\<close>

type_synonym ustring = "nat list"

definition str :: "string \<Rightarrow> ustring" where
  "str s = map of_char s"

text \<open>
  \<open>String.prototype.trim\<close> removes WhiteSpace and LineTerminator code units at both ends:
  TAB, LF, VT, FF, CR, SP, NBSP, U+1680, U+2000 to U+200A, U+2028, U+2029, U+202F, U+205F,
  U+3000 and U+FEFF.
\<close>

definition isWhiteSpace :: "nat \<Rightarrow> bool" where
  "isWhiteSpace c \<longleftrightarrow>
     (9 \<le> c \<and> c \<le> 13) \<or> c = 32 \<or> c = 160 \<or> c = 5760 \<or> (8192 \<le> c \<and> c \<le> 8202) \<or>
     c = 8232 \<or> c = 8233 \<or> c = 8239 \<or> c = 8287 \<or> c = 12288 \<or> c = 65279"

definition trim :: "ustring \<Rightarrow> ustring" where
  "trim s = rev (dropWhile isWhiteSpace (rev (dropWhile isWhiteSpace s)))"

text \<open>
  \<open>s.split(sep)\<close> with a separator of one code unit. The result is never empty:
  \<open>"".split(sep)\<close> is the array holding the empty string.
\<close>

fun splitOn :: "nat \<Rightarrow> ustring \<Rightarrow> ustring list" where
  "splitOn sep [] = [[]]"
| "splitOn sep (c # cs) =
     (if c = sep then [] # splitOn sep cs
      else (case splitOn sep cs of
              [] \<Rightarrow> [[c]]
            | x # xs \<Rightarrow> (c # x) # xs))"

text \<open>\<open>parts.join(sep)\<close> with a separator of one code unit.\<close>

fun joinWith :: "nat \<Rightarrow> ustring list \<Rightarrow> ustring" where
  "joinWith sep [] = []"
| "joinWith sep [x] = x"
| "joinWith sep (x # y # ys) = x @ sep # joinWith sep (y # ys)"

text \<open>\<open>s.indexOf(pat)\<close>: the first position where \<open>pat\<close> occurs, \<open>-1\<close> when it does not.\<close>

fun indexOf :: "ustring \<Rightarrow> ustring \<Rightarrow> int" where
  "indexOf [] pat = (if pat = [] then 0 else - 1)"
| "indexOf (c # cs) pat =
     (if prefix pat (c # cs) then 0
      else (let r = indexOf cs pat in if r < 0 then - 1 else r + 1))"

text \<open>
  \<open>s.substr(start, length)\<close>: a negative start counts from the end, the start is clamped to
  the string, an absent length means up to the end, a negative length gives the empty string.
\<close>

definition substr :: "ustring \<Rightarrow> int \<Rightarrow> int option \<Rightarrow> ustring" where
  "substr s start len =
     (let size = int (length s);
          from = (if start < 0 then max (size + start) 0 else min start size);
          rest = drop (nat from) s
      in case len of None \<Rightarrow> rest | Some n \<Rightarrow> take (nat n) rest)"

definition startsWith :: "ustring \<Rightarrow> ustring \<Rightarrow> bool" where
  "startsWith s p = prefix p s"

text \<open>
  \<open>toLowerCase\<close> on one code unit, for Basic Latin and Latin-1 (A to Z, and U+00C0 to U+00DE
  without the multiplication sign); code units beyond Latin-1 are left as they are, the
  Unicode case tables of the engine are not part of the model.
\<close>

definition toLowerCase1 :: "nat \<Rightarrow> nat" where
  "toLowerCase1 c =
     (if (65 \<le> c \<and> c \<le> 90) \<or> (192 \<le> c \<and> c \<le> 222 \<and> c \<noteq> 215) then c + 32 else c)"

definition isDigit :: "nat \<Rightarrow> bool" where
  "isDigit c \<longleftrightarrow> 48 \<le> c \<and> c \<le> 57"

fun digitsValue :: "nat \<Rightarrow> ustring \<Rightarrow> nat" where
  "digitsValue acc [] = acc"
| "digitsValue acc (c # cs) = digitsValue (10 * acc + (c - 48)) cs"

section \<open>Numbers and values\<close>

text \<open>
  A JavaScript number is an IEEE double. The model keeps, for a finite number, the exact
  decimal value that was read (the engine rounds it to the nearest double afterwards), and has
  \<open>NaN\<close> and the two infinities as values of their own. Two numbers that are equal in the
  model are equal doubles. The only test the program makes on a number is its truthiness:
  a double is falsy when it is \<open>NaN\<close> or zero, and a decimal value rounds to zero exactly when
  its magnitude is at most \<open>2 powr -1075\<close>, half of the least positive double.
\<close>

datatype number = NaN | Infinity bool | Finite rat

datatype jsval =
    JNull
  | JBool bool
  | JNum number
  | JStr ustring
  | JArr "jsval list"
  | JObj "(ustring \<times> jsval) list"

text \<open>
  An object is the list of its own properties, in the order of their creation;
  \<open>AList.update\<close> replaces the value of a key that is there and appends a new key otherwise.
  (The engine lists array-index keys first; no statement below depends on the order.)
  A property that is absent reads as \<open>undefined\<close>, which is \<open>None\<close> here.
\<close>

type_synonym props = "(ustring \<times> jsval) list"

fun truthy :: "jsval option \<Rightarrow> bool" where
  "truthy None = False"
| "truthy (Some JNull) = False"
| "truthy (Some (JBool b)) = b"
| "truthy (Some (JNum NaN)) = False"
| "truthy (Some (JNum (Infinity pos))) = True"
| "truthy (Some (JNum (Finite q))) = (\<bar>q\<bar> > 1 / 2 ^ 1075)"
| "truthy (Some (JStr s)) = (s \<noteq> [])"
| "truthy (Some (JArr xs)) = True"
| "truthy (Some (JObj ps)) = True"

definition scale10 :: "rat \<Rightarrow> int \<Rightarrow> rat" where
  "scale10 q e = (if 0 \<le> e then q * 10 ^ nat e else q / 10 ^ nat (- e))"

text \<open>
  An exponent part \<open>e\<close> or \<open>E\<close>, an optional sign and at least one digit. When the text does
  not start with a complete exponent part nothing is consumed.
\<close>

definition readExponent :: "ustring \<Rightarrow> int \<times> ustring" where
  "readExponent r =
     (case r of
        [] \<Rightarrow> (0, r)
      | c # cs \<Rightarrow>
          if c = 101 \<or> c = 69 then
            (let neg = (case cs of [] \<Rightarrow> False | d # ds \<Rightarrow> d = 45);
                 ds = (case cs of [] \<Rightarrow> [] | d # ds \<Rightarrow> if d = 45 \<or> d = 43 then ds else cs);
                 ed = takeWhile isDigit ds
             in if ed = [] then (0, r)
                else ((if neg then - int (digitsValue 0 ed) else int (digitsValue 0 ed)),
                      dropWhile isDigit ds))
          else (0, r))"

text \<open>
  \<open>parseFloat\<close>: leading white space is skipped, then the longest prefix that is a decimal
  literal (optional sign, \<open>Infinity\<close>, or digits with an optional fraction and exponent) is
  the value; when there is no such prefix the result is \<open>NaN\<close>.
\<close>

definition parseFloat :: "ustring \<Rightarrow> number" where
  "parseFloat s =
     (let s1 = dropWhile isWhiteSpace s;
          neg = (case s1 of [] \<Rightarrow> False | c # cs \<Rightarrow> c = 45);
          s2 = (case s1 of [] \<Rightarrow> [] | c # cs \<Rightarrow> if c = 45 \<or> c = 43 then cs else s1)
      in if prefix (str ''Infinity'') s2 then Infinity (\<not> neg)
         else
           (let ip = takeWhile isDigit s2;
                r1 = dropWhile isDigit s2;
                fp = (case r1 of [] \<Rightarrow> [] | c # cs \<Rightarrow> if c = 46 then takeWhile isDigit cs else []);
                r2 = (case r1 of [] \<Rightarrow> [] | c # cs \<Rightarrow> if c = 46 then dropWhile isDigit cs else r1)
            in if ip = [] \<and> fp = [] then NaN
               else
                 (let q = scale10 (of_nat (digitsValue 0 (ip @ fp)))
                            (fst (readExponent r2) - int (length fp))
                  in Finite (if neg then - q else q))))"

section \<open>JSON.parse\<close>

text \<open>
  \<open>JSON.parse\<close> follows the JSON grammar of ECMA-404: the text is cut into tokens, and the
  tokens are read by a machine with a stack of the arrays and objects that are open. Any
  text that is not one JSON value makes \<open>JSON.parse\<close> throw a \<open>SyntaxError\<close>, which is
  \<open>None\<close> here.
\<close>

datatype token =
    TLBrace | TRBrace | TLBracket | TRBracket | TColon | TComma
  | TString ustring | TNumber rat | TTrue | TFalse | TNull

definition hexValue :: "nat \<Rightarrow> nat option" where
  "hexValue c =
     (if 48 \<le> c \<and> c \<le> 57 then Some (c - 48)
      else if 97 \<le> c \<and> c \<le> 102 then Some (c - 87)
      else if 65 \<le> c \<and> c \<le> 70 then Some (c - 55)
      else None)"

definition hex4 :: "nat \<Rightarrow> nat \<Rightarrow> nat \<Rightarrow> nat \<Rightarrow> nat option" where
  "hex4 a b c d =
     (case (hexValue a, hexValue b, hexValue c, hexValue d) of
        (Some x, Some y, Some z, Some w) \<Rightarrow> Some (4096 * x + 256 * y + 16 * z + w)
      | _ \<Rightarrow> None)"

definition simpleEscape :: "nat \<Rightarrow> nat option" where
  "simpleEscape e =
     (if e = 34 \<or> e = 92 \<or> e = 47 then Some e
      else if e = 98 then Some 8
      else if e = 102 then Some 12
      else if e = 110 then Some 10
      else if e = 114 then Some 13
      else if e = 116 then Some 9
      else None)"

text \<open>The text after an opening quote: the string's value and what follows its closing quote.\<close>

fun lexString :: "ustring \<Rightarrow> (ustring \<times> ustring) option" where
  "lexString [] = None"
| "lexString (c # cs) =
     (if c = 34 then Some ([], cs)
      else if c = 92 then
        (case cs of
           [] \<Rightarrow> None
         | e # es \<Rightarrow>
             if e = 117 then
               (case es of
                  a # b # c' # d # rest \<Rightarrow>
                    (case hex4 a b c' d of
                       None \<Rightarrow> None
                     | Some u \<Rightarrow> map_option (\<lambda>(v, r). (u # v, r)) (lexString rest))
                | _ \<Rightarrow> None)
             else
               (case simpleEscape e of
                  None \<Rightarrow> None
                | Some x \<Rightarrow> map_option (\<lambda>(v, r). (x # v, r)) (lexString es)))
      else if c < 32 then None
      else map_option (\<lambda>(v, r). (c # v, r)) (lexString cs))"

text \<open>
  A number token: an optional minus, an integer part without a leading zero, an optional
  fraction with at least one digit, an optional exponent.
\<close>

definition lexNumber :: "ustring \<Rightarrow> (rat \<times> ustring) option" where
  "lexNumber s =
     (let neg = (case s of [] \<Rightarrow> False | c # cs \<Rightarrow> c = 45);
          s1 = (case s of [] \<Rightarrow> [] | c # cs \<Rightarrow> if c = 45 then cs else s)
      in case s1 of
           [] \<Rightarrow> None
         | c # cs \<Rightarrow>
             if \<not> isDigit c then None
             else
               (let ip = (if c = 48 then [c] else takeWhile isDigit s1);
                    r1 = (if c = 48 then cs else dropWhile isDigit s1);
                    hasFrac = (case r1 of [] \<Rightarrow> False
                                | d # ds \<Rightarrow> d = 46 \<and> takeWhile isDigit ds \<noteq> []);
                    fp = (if hasFrac then takeWhile isDigit (tl r1) else []);
                    r2 = (if hasFrac then dropWhile isDigit (tl r1) else r1);
                    q = scale10 (of_nat (digitsValue 0 (ip @ fp)))
                          (fst (readExponent r2) - int (length fp))
                in Some (if neg then - q else q, snd (readExponent r2))))"

definition isJsonSpace :: "nat \<Rightarrow> bool" where
  "isJsonSpace c \<longleftrightarrow> c = 9 \<or> c = 10 \<or> c = 13 \<or> c = 32"

function tokenize :: "ustring \<Rightarrow> token list option" where
  "tokenize [] = Some []"
| "tokenize (c # cs) =
     (if isJsonSpace c then tokenize cs
      else if c = 123 then map_option (Cons TLBrace) (tokenize cs)
      else if c = 125 then map_option (Cons TRBrace) (tokenize cs)
      else if c = 91 then map_option (Cons TLBracket) (tokenize cs)
      else if c = 93 then map_option (Cons TRBracket) (tokenize cs)
      else if c = 58 then map_option (Cons TColon) (tokenize cs)
      else if c = 44 then map_option (Cons TComma) (tokenize cs)
      else if c = 34 then
        (case lexString cs of
           None \<Rightarrow> None
         | Some (v, r) \<Rightarrow> map_option (Cons (TString v)) (tokenize r))
      else if c = 45 \<or> isDigit c then
        (case lexNumber (c # cs) of
           None \<Rightarrow> None
         | Some (q, r) \<Rightarrow> map_option (Cons (TNumber q)) (tokenize r))
      else if prefix (str ''true'') (c # cs) then map_option (Cons TTrue) (tokenize (drop 3 cs))
      else if prefix (str ''false'') (c # cs) then map_option (Cons TFalse) (tokenize (drop 4 cs))
      else if prefix (str ''null'') (c # cs) then map_option (Cons TNull) (tokenize (drop 3 cs))
      else None)"
  by pat_completeness auto
termination
proof -
  have string_shorter: "length r < length s" if "lexString s = Some (v, r)" for s v r
    using that
  proof (induction s arbitrary: v r rule: lexString.induct)
    case 1
    then show ?case by simp
  next
    case (2 c cs)
    then show ?case
      by (fastforce split: if_splits list.splits option.splits)
  qed
  have exponent_suffix: "suffix (snd (readExponent r)) r" for r
    unfolding readExponent_def Let_def
    by (auto split: list.splits intro: suffix_ConsI suffix_dropWhile)
  have number_shorter: "length r < length s" if a: "lexNumber s = Some (q, r)" for s q r
  proof -
    define s1 where "s1 = (case s of [] \<Rightarrow> [] | c # cs \<Rightarrow> if c = 45 then cs else s)"
    have s1: "suffix s1 s"
      by (auto simp: s1_def split: list.splits intro: suffix_ConsI)
    from a obtain c cs where c: "s1 = c # cs"
      by (cases s1) (auto simp: lexNumber_def s1_def Let_def)
    define r1 where "r1 = (if c = 48 then cs else dropWhile isDigit s1)"
    from a c have dg: "isDigit c"
      by (auto simp: lexNumber_def s1_def Let_def split: if_splits)
    have r1: "suffix r1 cs"
      using c dg by (auto simp: r1_def intro: suffix_dropWhile)
    define r2 where "r2 = (if (case r1 of [] \<Rightarrow> False | d # ds \<Rightarrow> d = 46 \<and> takeWhile isDigit ds \<noteq> [])
         then dropWhile isDigit (tl r1) else r1)"
    have r2: "suffix r2 r1"
      by (auto simp: r2_def intro: suffix_dropWhile suffix_tl suffix_order.trans)
    from a c dg have r: "r = snd (readExponent r2)"
      by (auto simp: lexNumber_def Let_def s1_def r1_def r2_def split: if_splits)
    have "suffix r cs"
      unfolding r using exponent_suffix r2 r1 suffix_order.trans by blast
    then have "strict_suffix r s1"
      unfolding c by (metis suffix_ConsD' suffix_order.less_le suffix_ConsI suffix_order.dual_order.refl)
    then have "strict_suffix r s" using s1 by auto
    then show ?thesis by (rule suffix_length_less)
  qed
  show ?thesis
  proof (relation "measure length")
    show "wf (measure length)" by simp
  next
    fix c cs x v r
    assume "lexString cs = Some x" and "(v, r) = x"
    then show "(r, c # cs) \<in> measure length"
      using string_shorter [of cs v r] by simp
  next
    fix c cs x q r
    assume "lexNumber (c # cs) = Some x" and "(q, r) = x"
    then show "(r, c # cs) \<in> measure length"
      using number_shorter [of "c # cs" q r] by simp
  qed simp_all
qed

text \<open>
  The machine that reads the tokens. The stack holds the containers that are open: an array
  with its elements so far (last first), an object with its properties so far and the key
  whose value is being read. The mode says what may come next.
\<close>

datatype frame = FArr "jsval list" | FObj props "ustring option"

datatype mode = MValue | MValueOrClose | MKey | MKeyOrClose | MColon | MCommaOrClose | MDone jsval

fun complete :: "jsval \<Rightarrow> frame list \<Rightarrow> (mode \<times> frame list) option" where
  "complete v [] = Some (MDone v, [])"
| "complete v (FArr acc # st) = Some (MCommaOrClose, FArr (v # acc) # st)"
| "complete v (FObj ps (Some k) # st) = Some (MCommaOrClose, FObj (AList.update k v ps) None # st)"
| "complete v (FObj ps None # st) = None"

fun openValue :: "token \<Rightarrow> frame list \<Rightarrow> (mode \<times> frame list) option" where
  "openValue (TString s) st = complete (JStr s) st"
| "openValue (TNumber q) st = complete (JNum (Finite q)) st"
| "openValue TTrue st = complete (JBool True) st"
| "openValue TFalse st = complete (JBool False) st"
| "openValue TNull st = complete JNull st"
| "openValue TLBracket st = Some (MValueOrClose, FArr [] # st)"
| "openValue TLBrace st = Some (MKeyOrClose, FObj [] None # st)"
| "openValue _ st = None"

fun closeArray :: "frame list \<Rightarrow> (mode \<times> frame list) option" where
  "closeArray (FArr acc # st) = complete (JArr (rev acc)) st"
| "closeArray _ = None"

fun closeObject :: "frame list \<Rightarrow> (mode \<times> frame list) option" where
  "closeObject (FObj ps None # st) = complete (JObj ps) st"
| "closeObject _ = None"

fun readKey :: "token \<Rightarrow> frame list \<Rightarrow> (mode \<times> frame list) option" where
  "readKey (TString k) (FObj ps None # st) = Some (MColon, FObj ps (Some k) # st)"
| "readKey _ _ = None"

fun parseStep :: "mode \<Rightarrow> frame list \<Rightarrow> token \<Rightarrow> (mode \<times> frame list) option" where
  "parseStep MValue st t = openValue t st"
| "parseStep MValueOrClose st t = (if t = TRBracket then closeArray st else openValue t st)"
| "parseStep MKey st t = readKey t st"
| "parseStep MKeyOrClose st t = (if t = TRBrace then closeObject st else readKey t st)"
| "parseStep MColon st t = (if t = TColon then Some (MValue, st) else None)"
| "parseStep MCommaOrClose st t =
     (if t = TComma then
        (case st of
           FArr acc # r \<Rightarrow> Some (MValue, st)
         | FObj ps None # r \<Rightarrow> Some (MKey, st)
         | _ \<Rightarrow> None)
      else if t = TRBracket then closeArray st
      else if t = TRBrace then closeObject st
      else None)"
| "parseStep (MDone v) st t = None"

fun parseTokens :: "mode \<Rightarrow> frame list \<Rightarrow> token list \<Rightarrow> jsval option" where
  "parseTokens m st [] = (case m of MDone v \<Rightarrow> Some v | _ \<Rightarrow> None)"
| "parseTokens m st (t # ts) =
     (case parseStep m st t of
        None \<Rightarrow> None
      | Some (m', st') \<Rightarrow> parseTokens m' st' ts)"

definition JSON_parse :: "ustring \<Rightarrow> jsval option" where
  "JSON_parse s =
     (case tokenize s of
        None \<Rightarrow> None
      | Some ts \<Rightarrow> parseTokens MValue [] ts)"

definition quoted :: "ustring \<Rightarrow> ustring" where
  "quoted s = 34 # s @ [34]"

section \<open>Errors, dates and objects\<close>

text \<open>
  What a call can throw. \<open>NotModelled\<close> is not an exception of the program: it marks the one
  operation of the engine that the model leaves out (assigning the \<open>length\<close> of an array,
  which converts the value to a double), so that no statement below speaks about it.
\<close>

datatype error = TypeError | RangeError | NotModelled

definition bindE :: "error + 'a \<Rightarrow> ('a \<Rightarrow> error + 'b) \<Rightarrow> error + 'b" where
  "bindE m f = (case m of Inl e \<Rightarrow> Inl e | Inr x \<Rightarrow> f x)"

fun mapE :: "('a \<Rightarrow> error + 'b) \<Rightarrow> 'a list \<Rightarrow> error + 'b list" where
  "mapE f [] = Inr []"
| "mapE f (x # xs) =
     (case f x of
        Inl e \<Rightarrow> Inl e
      | Inr y \<Rightarrow> (case mapE f xs of Inl e \<Rightarrow> Inl e | Inr ys \<Rightarrow> Inr (y # ys)))"

text \<open>\<open>n\<close> written with exactly \<open>w\<close> decimal digits (the low ones when \<open>n\<close> is longer).\<close>

definition pad :: "nat \<Rightarrow> nat \<Rightarrow> ustring" where
  "pad w n = map (\<lambda>i. 48 + (n div 10 ^ i) mod 10) (rev [0..<w])"

text \<open>The civil date (year, month, day) of a day number counted from 1970-01-01.\<close>

definition civilFromDays :: "int \<Rightarrow> int \<times> int \<times> int" where
  "civilFromDays z0 =
     (let z = z0 + 719468;
          era = z div 146097;
          doe = z mod 146097;
          yoe = (doe - doe div 1460 + doe div 36524 - doe div 146096) div 365;
          doy = doe - (365 * yoe + yoe div 4 - yoe div 100);
          mp = (5 * doy + 2) div 153;
          d = doy - (153 * mp + 2) div 5 + 1;
          m = (if mp < 10 then mp + 3 else mp - 9);
          y = yoe + era * 400 + (if m \<le> 2 then 1 else 0)
      in (y, m, d))"

text \<open>
  \<open>new Date(t).toISOString()\<close> for a time value \<open>t\<close> in milliseconds: a time value beyond
  8.64e15 in magnitude is an invalid date, on which \<open>toISOString\<close> throws a \<open>RangeError\<close>;
  otherwise the result is \<open>YYYY-MM-DDTHH:mm:ss.sssZ\<close>, with a sign and six digits for a year
  outside 0 to 9999.
\<close>

definition toISOString :: "int \<Rightarrow> error + ustring" where
  "toISOString t =
     (if \<bar>t\<bar> > 8640000000000000 then Inl RangeError
      else
        (let ms = t mod 86400000;
             (y, m, d) = civilFromDays (t div 86400000);
             year = (if 0 \<le> y \<and> y \<le> 9999 then pad 4 (nat y)
                     else (if y < 0 then 45 else 43) # pad 6 (nat \<bar>y\<bar>))
         in Inr (year @ 45 # pad 2 (nat m) @ 45 # pad 2 (nat d) @
                 84 # pad 2 (nat (ms div 3600000)) @ 58 # pad 2 (nat (ms div 60000 mod 60)) @
                 58 # pad 2 (nat (ms div 1000 mod 60)) @ 46 # pad 3 (nat (ms mod 1000)) @ [90])))"

text \<open>
  The object that \<open>Object.assign\<close> and the property assignments work on. A plain object has
  its own properties only. A primitive value is wrapped: the wrapper of a number or a boolean
  starts without own properties, the wrapper of a string has its code units at the array
  indices and a \<open>length\<close>, all read-only. An array keeps its elements at the array indices,
  as own properties, and its \<open>length\<close>.

  Properties inherited from the built-in prototypes (\<open>constructor\<close>, \<open>toString\<close> and the
  like) are not part of the model: reading a key that is not an own property gives
  \<open>undefined\<close>.
\<close>

datatype carrier = Plain | BoxedNumber number | BoxedBoolean bool | BoxedString ustring | ArrayObject nat

datatype jsobject = Obj carrier props

function showNat :: "nat \<Rightarrow> ustring" where
  "showNat n = (if n < 10 then [48 + n] else showNat (n div 10) @ [48 + n mod 10])"
  by pat_completeness auto
termination
  by (relation "measure id") auto

text \<open>An array index is the canonical decimal text of a number below \<open>2^32 - 1\<close>.\<close>

definition arrayIndex :: "ustring \<Rightarrow> nat option" where
  "arrayIndex k =
     (if k \<noteq> [] \<and> list_all isDigit k \<and> (k = [48] \<or> hd k \<noteq> 48) \<and> digitsValue 0 k < 4294967295
      then Some (digitsValue 0 k) else None)"

definition indexed :: "jsval list \<Rightarrow> props" where
  "indexed xs = zip (map showNat [0..<length xs]) xs"

fun toObject :: "jsval \<Rightarrow> error + jsobject" where
  "toObject JNull = Inl TypeError"
| "toObject (JObj ps) = Inr (Obj Plain ps)"
| "toObject (JNum n) = Inr (Obj (BoxedNumber n) [])"
| "toObject (JBool b) = Inr (Obj (BoxedBoolean b) [])"
| "toObject (JStr s) = Inr (Obj (BoxedString s) [])"
| "toObject (JArr xs) = Inr (Obj (ArrayObject (length xs)) (indexed xs))"

text \<open>The own enumerable properties that an object spread copies.\<close>

fun ownEnumerable :: "jsval \<Rightarrow> props" where
  "ownEnumerable (JObj ps) = ps"
| "ownEnumerable (JArr xs) = indexed xs"
| "ownEnumerable (JStr s) = indexed (map (\<lambda>c. JStr [c]) s)"
| "ownEnumerable _ = []"

fun getProp :: "jsobject \<Rightarrow> ustring \<Rightarrow> jsval option" where
  "getProp (Obj c ps) k =
     (case map_of ps k of
        Some v \<Rightarrow> Some v
      | None \<Rightarrow>
          (case c of
             BoxedString s \<Rightarrow>
               (if k = str ''length'' then Some (JNum (Finite (of_nat (length s))))
                else (case arrayIndex k of
                        Some i \<Rightarrow> if i < length s then Some (JStr [s ! i]) else None
                      | None \<Rightarrow> None))
           | ArrayObject n \<Rightarrow>
               (if k = str ''length'' then Some (JNum (Finite (of_nat n))) else None)
           | _ \<Rightarrow> None))"

text \<open>
  The assignment \<open>o[k] = v\<close> on the own properties. Assigning \<open>__proto__\<close> on an object that
  has no own property of that name goes to the inherited setter and creates no property.
  When the value is an object or \<open>null\<close> the setter replaces the prototype of the object;
  prototypes are not part of the model, so the statements below that depend on what is read
  through a prototype leave out a supplemental key \<open>__proto__\<close>.
\<close>

definition assignOwn :: "props \<Rightarrow> ustring \<Rightarrow> jsval \<Rightarrow> props" where
  "assignOwn ps k v =
     (if k = str ''__proto__'' \<and> map_of ps k = None then ps else AList.update k v ps)"

text \<open>
  \<open>o[k] = v\<close> in strict mode (the code of a module): writing to a read-only property of a
  string wrapper throws a \<open>TypeError\<close>; writing an array index at or beyond the length of
  an array extends the array.
\<close>

fun setProp :: "jsobject \<Rightarrow> ustring \<Rightarrow> jsval \<Rightarrow> error + jsobject" where
  "setProp (Obj (BoxedString s) ps) k v =
     (if k = str ''length'' \<or> (case arrayIndex k of Some i \<Rightarrow> i < length s | None \<Rightarrow> False)
      then Inl TypeError
      else Inr (Obj (BoxedString s) (assignOwn ps k v)))"
| "setProp (Obj (ArrayObject n) ps) k v =
     (if k = str ''length'' then Inl NotModelled
      else (case arrayIndex k of
              Some i \<Rightarrow> Inr (Obj (ArrayObject (max n (Suc i))) (AList.update k v ps))
            | None \<Rightarrow> Inr (Obj (ArrayObject n) (assignOwn ps k v))))"
| "setProp (Obj c ps) k v = Inr (Obj c (assignOwn ps k v))"

text \<open>\<open>Object.assign(target, source)\<close> assigns the properties of the source in their order.\<close>

fun objectAssign :: "jsobject \<Rightarrow> props \<Rightarrow> error + jsobject" where
  "objectAssign target [] = Inr target"
| "objectAssign target ((k, v) # rest) =
     (case setProp target k v of
        Inl e \<Rightarrow> Inl e
      | Inr target' \<Rightarrow> objectAssign target' rest)"

text \<open>Reading \<open>v.k\<close>: on \<open>null\<close> a \<open>TypeError\<close>, on a primitive the property of its wrapper.\<close>

definition readProp :: "jsval \<Rightarrow> ustring \<Rightarrow> error + jsval option" where
  "readProp v k = (case toObject v of Inl e \<Rightarrow> Inl e | Inr obj \<Rightarrow> Inr (getProp obj k))"

section \<open>The parsers of the log shipping function\<close>

text \<open>The event that CloudWatch Logs delivers for one log line.\<close>

record CloudWatchLogsLogEvent =
  id' :: ustring
  timestamp :: int
  message :: ustring

definition isRequestLogEntry :: "ustring \<Rightarrow> bool" where
  "isRequestLogEntry line \<longleftrightarrow>
     startsWith line (str ''START RequestId: '') \<or>
     startsWith line (str ''END RequestId: '') \<or>
     startsWith line (str ''REPORT RequestId: '')"

definition fieldValue :: "ustring \<Rightarrow> ustring \<Rightarrow> int option \<Rightarrow> ustring" where
  "fieldValue text fieldNameText valueLength =
     trim (substr text (indexOf text fieldNameText + int (length fieldNameText)) valueLength)"

text \<open>
  \<open>parseReportField\<close>: the raw field is split at the colons and the parts are trimmed; the
  first part is the name, the second the value. Without a colon the value is \<open>undefined\<close>
  and \<open>rawFieldValue.split\<close> throws a \<open>TypeError\<close>.
\<close>

definition parseReportField :: "ustring \<Rightarrow> error + (ustring \<times> jsval)" where
  "parseReportField rawField =
     (case map trim (splitOn 58 rawField) of
        rawFieldName # rawFieldValue # _ \<Rightarrow>
          (let fieldNameNoSpaces = filter (\<lambda>c. c \<noteq> 32) rawFieldName;
               fieldName = (case fieldNameNoSpaces of [] \<Rightarrow> [] | c # cs \<Rightarrow> toLowerCase1 c # cs);
               parts = splitOn 32 rawFieldValue;
               numberText = (case parts of [] \<Rightarrow> [] | v # _ \<Rightarrow> v)
           in case parts of
                _ # unit # _ \<Rightarrow>
                  if unit = str ''ms'' \<or> unit = str ''MB''
                  then Inr (fieldName @ unit, JNum (parseFloat numberText))
                  else Inr (fieldName, JStr rawFieldValue)
              | _ \<Rightarrow> Inr (fieldName, JStr rawFieldValue))
      | _ \<Rightarrow> Inl TypeError)"

text \<open>The \<open>reduce\<close> that collects the report fields into an object, starting from \<open>{}\<close>.\<close>

fun collectFields :: "props \<Rightarrow> (ustring \<times> jsval) list \<Rightarrow> props" where
  "collectFields acc [] = acc"
| "collectFields acc ((name, val) # rest) = collectFields (assignOwn acc name val) rest"

definition lambdaRequestLogData :: "ustring \<Rightarrow> error + props option" where
  "lambdaRequestLogData line =
     (if isRequestLogEntry line then
        (let eventName = substr line 0 (Some (indexOf line [32]));
             requestId = fieldValue line (str ''RequestId:'') (Some 36);
             base = [(str ''lambdaEvent'', JStr eventName), (str ''lambdaRequestId'', JStr requestId)];
             stats =
               (if eventName = str ''END'' then Inr []
                else if eventName = str ''START'' then
                  Inr [(str ''lambdaVersion'', JStr (fieldValue line (str ''Version:'') None))]
                else if eventName = str ''REPORT'' then
                  (let rawFields = filter (\<lambda>s. length s > 0) (map trim (tl (splitOn 9 line)))
                   in case mapE parseReportField rawFields of
                        Inl e \<Rightarrow> Inl e
                      | Inr parsedFields \<Rightarrow> Inr (collectFields [] parsedFields))
                else Inr [])
         in case stats of
              Inl e \<Rightarrow> Inl e
            | Inr st \<Rightarrow> Inr (Some (AList.update (str ''lambdaStats'') (JObj st) base)))
      else Inr None)"

definition parseMessageJson :: "ustring \<Rightarrow> jsval" where
  "parseMessageJson line =
     (case JSON_parse (trim line) of
        Some v \<Rightarrow> v
      | None \<Rightarrow> JObj [(str ''message'', JStr (trim line))])"

text \<open>
  \<open>parseNodeLogFormat\<close> reads a line \<open>date TAB requestId TAB level TAB message\<close>.
  \<open>Date.parse\<close> is a function of the engine: ECMAScript fixes it on the ISO format only and
  leaves every other text to the implementation, so it is a parameter here, \<open>None\<close> being
  the result \<open>NaN\<close>. The result is a new object: the spread of the parsed message, then
  \<open>lambdaRequestId\<close> and \<open>level\<close>.
\<close>

definition parseNodeLogFormat ::
  "(ustring \<Rightarrow> int option) \<Rightarrow> ustring \<Rightarrow> ustring \<Rightarrow> jsval option" where
  "parseNodeLogFormat dateParse logGroup line =
     (let elements = splitOn 9 line
      in case elements of
           dateString # lambdaRequestId # level # messageParts \<Rightarrow>
             (let isDate = (dateParse dateString \<noteq> None)
              in if length elements \<ge> 4 \<and> isDate then
                   (let messageText = joinWith 9 messageParts;
                        structuredLog = parseMessageJson messageText
                    in Some (JObj (AList.update (str ''level'') (JStr level)
                                    (AList.update (str ''lambdaRequestId'') (JStr lambdaRequestId)
                                      (ownEnumerable structuredLog)))))
                 else None)
         | _ \<Rightarrow> None)"

definition parseLambdaLogLine ::
  "(ustring \<Rightarrow> int option) \<Rightarrow> ustring \<Rightarrow> ustring \<Rightarrow> error + jsval" where
  "parseLambdaLogLine dateParse logGroup line =
     (case lambdaRequestLogData line of
        Inl e \<Rightarrow> Inl e
      | Inr (Some requestFields) \<Rightarrow>
          Inr (JObj (AList.update (str ''message'') (JStr line) requestFields))
      | Inr None \<Rightarrow>
          (case parseNodeLogFormat dateParse logGroup line of
             Some nodeLogData \<Rightarrow> Inr nodeLogData
           | None \<Rightarrow> Inr (parseMessageJson line)))"

section \<open>Building the record to publish\<close>

text \<open>
  One step of the \<open>reduce\<close> over \<open>Object.keys(extraFields)\<close>: a truthy value at the key is
  first copied to \<open>overwrittenFields.key\<close>, then the key gets the extra value. The extra
  fields are given as the list of their entries, in the order of \<open>Object.keys\<close>; an object
  has every key once.
\<close>

definition overwrittenKey :: "ustring \<Rightarrow> ustring" where
  "overwrittenKey key = str ''overwrittenFields.'' @ key"

definition enrichStep :: "jsobject \<Rightarrow> ustring \<times> jsval \<Rightarrow> error + jsobject" where
  "enrichStep acc entry =
     (case (case getProp acc (fst entry) of
              Some old \<Rightarrow> if truthy (Some old) then setProp acc (overwrittenKey (fst entry)) old
                          else Inr acc
            | None \<Rightarrow> Inr acc) of
        Inl e \<Rightarrow> Inl e
      | Inr acc' \<Rightarrow> setProp acc' (fst entry) (snd entry))"

fun enrich :: "jsobject \<Rightarrow> props \<Rightarrow> error + jsobject" where
  "enrich acc [] = Inr acc"
| "enrich acc (entry # rest) =
     (case enrichStep acc entry of
        Inl e \<Rightarrow> Inl e
      | Inr acc' \<Rightarrow> enrich acc' rest)"

definition createStructuredLog ::
  "(ustring \<Rightarrow> int option) \<Rightarrow> ustring \<Rightarrow> CloudWatchLogsLogEvent \<Rightarrow> props \<Rightarrow> error + jsobject" where
  "createStructuredLog dateParse logGroup logEvent extraFields =
     bindE (parseLambdaLogLine dateParse logGroup (trim (message logEvent))) (\<lambda>structuredLog.
     bindE (readProp structuredLog (str ''timestamp'')) (\<lambda>parsed.
     bindE (if truthy parsed then Inr (case parsed of Some v \<Rightarrow> v | None \<Rightarrow> JNull)
            else map_sum (\<lambda>e. e) JStr (toISOString (timestamp logEvent))) (\<lambda>stamp.
     bindE (toObject structuredLog) (\<lambda>target.
     bindE (objectAssign target
              [(str ''@timestamp'', stamp),
               (str ''cloudwatchId'', JStr (id' logEvent)),
               (str ''cloudwatchLogGroup'', JStr logGroup)]) (\<lambda>publishable.
     enrich publishable extraFields)))))"

section \<open>A date parser of the engine\<close>

text \<open>
  \<open>isoDateParse\<close> is \<open>Date.parse\<close> on the format that ECMAScript prescribes:
  \<open>YYYY\<close>, \<open>YYYY-MM\<close> or \<open>YYYY-MM-DD\<close>, then optionally \<open>T\<close> with \<open>HH:mm\<close>, \<open>HH:mm:ss\<close> or
  \<open>HH:mm:ss.sss\<close> and a zone \<open>Z\<close> or \<open>+HH:mm\<close> or \<open>-HH:mm\<close> (a date-time without zone is
  read in the zone of the host, here UTC). Every other text is \<open>NaN\<close>. It is the instance
  at which the statements that hold for every date parser are tried out.
\<close>

definition twoDigits :: "nat \<Rightarrow> nat \<Rightarrow> int option" where
  "twoDigits a b = (if isDigit a \<and> isDigit b then Some (int (10 * (a - 48) + (b - 48))) else None)"

definition daysFromCivil :: "int \<Rightarrow> int \<Rightarrow> int \<Rightarrow> int" where
  "daysFromCivil y m d =
     (let y' = (if m \<le> 2 then y - 1 else y);
          doy = (153 * (if m > 2 then m - 3 else m + 9) + 2) div 5 + d - 1;
          doe = (y' mod 400) * 365 + (y' mod 400) div 4 - (y' mod 400) div 100 + doy
      in (y' div 400) * 146097 + doe - 719468)"

definition daysInMonth :: "int \<Rightarrow> int \<Rightarrow> int" where
  "daysInMonth y m =
     (if m = 2 then (if y mod 4 = 0 \<and> (y mod 100 \<noteq> 0 \<or> y mod 400 = 0) then 29 else 28)
      else if m = 4 \<or> m = 6 \<or> m = 9 \<or> m = 11 then 30 else 31)"

text \<open>The date part: year, month and day, and the text that follows.\<close>

definition isoDatePart :: "ustring \<Rightarrow> (int \<times> int \<times> int \<times> ustring) option" where
  "isoDatePart s =
     (case s of
        y1 # y2 # y3 # y4 # r \<Rightarrow>
          (if list_all isDigit [y1, y2, y3, y4] then
             (let y = int (digitsValue 0 [y1, y2, y3, y4])
              in case r of
                   c1 # m1 # m2 # r' \<Rightarrow>
                     (if c1 = 45 then
                        (case twoDigits m1 m2 of
                           None \<Rightarrow> None
                         | Some m \<Rightarrow>
                             (case r' of
                                c2 # d1 # d2 # r'' \<Rightarrow>
                                  (if c2 = 45 then
                                     (case twoDigits d1 d2 of
                                        None \<Rightarrow> None
                                      | Some d \<Rightarrow> Some (y, m, d, r''))
                                   else Some (y, m, 1, r'))
                              | _ \<Rightarrow> Some (y, m, 1, r')))
                      else Some (y, 1, 1, r))
                 | _ \<Rightarrow> Some (y, 1, 1, r))
           else None)
      | _ \<Rightarrow> None)"

text \<open>The time part after \<open>T\<close>: the milliseconds of the day, and the text that follows.\<close>

definition isoTimePart :: "ustring \<Rightarrow> (int \<times> ustring) option" where
  "isoTimePart s =
     (case s of
        h1 # h2 # c1 # m1 # m2 # r \<Rightarrow>
          (case (twoDigits h1 h2, twoDigits m1 m2) of
             (Some h, Some mi) \<Rightarrow>
               (if c1 \<noteq> 58 \<or> h > 24 \<or> mi > 59 then None
                else
                  (case r of
                     c2 # s1 # s2 # r' \<Rightarrow>
                       (if c2 = 58 then
                          (case twoDigits s1 s2 of
                             None \<Rightarrow> None
                           | Some sec \<Rightarrow>
                               (if sec > 59 then None
                                else
                                  (case r' of
                                     c3 # f1 # f2 # f3 # r'' \<Rightarrow>
                                       (if c3 = 46 \<and> list_all isDigit [f1, f2, f3] then
                                          Some (h * 3600000 + mi * 60000 + sec * 1000 +
                                                int (digitsValue 0 [f1, f2, f3]), r'')
                                        else Some (h * 3600000 + mi * 60000 + sec * 1000, r'))
                                   | _ \<Rightarrow> Some (h * 3600000 + mi * 60000 + sec * 1000, r'))))
                        else Some (h * 3600000 + mi * 60000, r))
                   | _ \<Rightarrow> Some (h * 3600000 + mi * 60000, r)))
           | _ \<Rightarrow> None)
      | _ \<Rightarrow> None)"

text \<open>The zone: the offset from UTC in minutes; nothing may follow it.\<close>

definition isoZone :: "ustring \<Rightarrow> int option" where
  "isoZone s =
     (if s = [] \<or> s = [90] then Some 0
      else
        (case s of
           [sg, h1, h2, c, m1, m2] \<Rightarrow>
             (case (twoDigits h1 h2, twoDigits m1 m2) of
                (Some h, Some mi) \<Rightarrow>
                  (if c = 58 \<and> h \<le> 23 \<and> mi \<le> 59 \<and> (sg = 43 \<or> sg = 45)
                   then Some ((if sg = 45 then - 1 else 1) * (h * 60 + mi))
                   else None)
              | _ \<Rightarrow> None)
         | _ \<Rightarrow> None))"

definition isoDateParse :: "ustring \<Rightarrow> int option" where
  "isoDateParse s =
     (case isoDatePart s of
        None \<Rightarrow> None
      | Some (y, m, d, r) \<Rightarrow>
          (if m < 1 \<or> m > 12 \<or> d < 1 \<or> d > daysInMonth y m then None
           else
             (case r of
                [] \<Rightarrow> Some (daysFromCivil y m d * 86400000)
              | c # r' \<Rightarrow>
                  (if c \<noteq> 84 then None
                   else
                     (case isoTimePart r' of
                        None \<Rightarrow> None
                      | Some (ms, z) \<Rightarrow>
                          (if ms > 86400000 then None
                           else
                             (case isoZone z of
                                None \<Rightarrow> None
                              | Some offset \<Rightarrow>
                                  Some (daysFromCivil y m d * 86400000 + ms - offset * 60000))))))))"

section \<open>The report field in the words of the specification\<close>





section \<open>Inputs of the concrete runs\<close>

text \<open>
  The event used in the concrete runs below: id \<open>e1\<close>, ingestion time 1672531200000
  (2023-01-01T00:00:00.000Z) and a message to choose.
\<close>

definition exampleEvent :: "ustring \<Rightarrow> CloudWatchLogsLogEvent" where
  "exampleEvent m = \<lparr>id' = str ''e1'', timestamp = 1672531200000, message = m\<rparr>"


text \<open>
  The tab-delimited line of the specification: the date \<open>2023-01-01T00:00:00Z\<close>, the request
  id \<open>req-1\<close>, the level \<open>INFO\<close> and the message \<open>{"a":1}\<close>. The second line has a message
  that is a JSON object with fields \<open>level\<close> and \<open>lambdaRequestId\<close> of its own.
\<close>

definition tabLine :: ustring where
  "tabLine = joinWith 9 [str ''2023-01-01T00:00:00Z'', str ''req-1'', str ''INFO'',
                         str ''{'' @ quoted (str ''a'') @ str '':1}'']"

definition overrideLine :: ustring where
  "overrideLine = joinWith 9 [str ''2023-01-01T00:00:00Z'', str ''req-1'', str ''INFO'',
     str ''{'' @ quoted (str ''level'') @ str '':'' @ quoted (str ''DEBUG'') @ str '','' @
       quoted (str ''lambdaRequestId'') @ str '':'' @ quoted (str ''other'') @ str '','' @
       quoted (str ''a'') @ str '':1}'']"

section \<open>Enrichment on a plain record\<close>

text \<open>
  On a plain object no assignment throws, and the \<open>reduce\<close> is a fold of \<open>stepPlain\<close> over the
  properties of the record.
\<close>

definition stepPlain :: "props \<Rightarrow> ustring \<times> jsval \<Rightarrow> props" where
  "stepPlain ps entry =
     assignOwn
       (case map_of ps (fst entry) of
          Some old \<Rightarrow> if truthy (Some old) then assignOwn ps (overwrittenKey (fst entry)) old else ps
        | None \<Rightarrow> ps)
       (fst entry) (snd entry)"

text \<open>
  An assignment to \<open>__proto__\<close> on a record without an own property of that name runs the
  inherited setter, which ignores a value that is not an object and creates no property.
\<close>

definition setterIgnored :: "props \<Rightarrow> ustring \<Rightarrow> bool" where
  "setterIgnored ps k \<longleftrightarrow> k = str ''__proto__'' \<and> map_of ps k = None"

text \<open>
  What a key reads after the enrichment of a plain record, when the supplemental keys are
  distinct and none is the bookkeeping name of another. It depends on the set of the
  supplemental fields only.
\<close>

definition enrichedLookup :: "props \<Rightarrow> props \<Rightarrow> ustring \<Rightarrow> jsval option" where
  "enrichedLookup ps es j =
     (if j \<in> fst ` set es then
        (if setterIgnored ps j then None else map_of es j)
      else if \<exists>k \<in> fst ` set es. j = overwrittenKey k \<and> truthy (map_of ps k) then map_of ps (drop 18 j)
      else map_of ps j)"

section \<open>Reading and writing properties\<close>

lemma str_inject: "str a = str b \<longleftrightarrow> a = b"
  unfolding str_def by (simp add: inj_map_eq_map [OF inj_of_char])

lemma overwrittenKey_inject: "overwrittenKey a = overwrittenKey b \<longleftrightarrow> a = b"
  by (simp add: overwrittenKey_def)

lemma map_of_assignOwn_other: "j \<noteq> k \<Longrightarrow> map_of (assignOwn ps k v) j = map_of ps j"
  by (simp add: assignOwn_def update_conv')

lemma map_of_assignOwn_same:
  "k \<noteq> str ''__proto__'' \<or> map_of ps k \<noteq> None \<Longrightarrow> map_of (assignOwn ps k v) k = Some v"
  by (auto simp: assignOwn_def update_conv')

lemma getProp_setProp_other:
  assumes "setProp acc k v = Inr acc'" and "j \<noteq> k" and "j \<noteq> str ''length'' \<or> arrayIndex k = None"
  shows "getProp acc' j = getProp acc j"
proof (cases acc)
  case (Obj c ps)
  show ?thesis
  proof (cases c)
    case Plain
    with Obj assms show ?thesis by (auto simp: map_of_assignOwn_other)
  next
    case (BoxedNumber n)
    with Obj assms show ?thesis by (auto simp: map_of_assignOwn_other)
  next
    case (BoxedBoolean b)
    with Obj assms show ?thesis by (auto simp: map_of_assignOwn_other)
  next
    case (BoxedString s)
    with Obj assms show ?thesis
      by (auto simp: map_of_assignOwn_other split: if_splits)
  next
    case (ArrayObject n)
    with Obj assms show ?thesis
      by (auto simp: map_of_assignOwn_other update_conv' split: if_splits option.splits)
  qed
qed

lemma getProp_setProp_same:
  assumes "setProp acc k v = Inr acc'" and "k \<noteq> str ''__proto__''"
  shows "getProp acc' k = Some v"
proof (cases acc)
  case (Obj c ps)
  show ?thesis
  proof (cases c)
    case Plain
    with Obj assms show ?thesis by (auto simp: map_of_assignOwn_same)
  next
    case (BoxedNumber n)
    with Obj assms show ?thesis by (auto simp: map_of_assignOwn_same)
  next
    case (BoxedBoolean b)
    with Obj assms show ?thesis by (auto simp: map_of_assignOwn_same)
  next
    case (BoxedString s)
    with Obj assms show ?thesis
      by (auto simp: map_of_assignOwn_same split: if_splits)
  next
    case (ArrayObject n)
    with Obj assms show ?thesis
      by (auto simp: map_of_assignOwn_same update_conv' split: if_splits option.splits)
  qed
qed

lemma overwrittenKey_not_length: "overwrittenKey k \<noteq> str ''length''"
  by (simp add: overwrittenKey_def str_def)

lemma enrichStep_other:
  assumes "enrichStep acc (k, v) = Inr acc'" and "j \<noteq> k" and "j \<noteq> overwrittenKey k"
    and "j \<noteq> str ''length''"
  shows "getProp acc' j = getProp acc j"
  using assms
  by (auto simp: enrichStep_def split: option.splits if_splits sum.splits
           dest!: getProp_setProp_other [where j = j])

lemma enrich_other:
  "enrich acc es = Inr r \<Longrightarrow> j \<notin> fst ` set es \<Longrightarrow> j \<notin> overwrittenKey ` fst ` set es \<Longrightarrow>
   j \<noteq> str ''length'' \<Longrightarrow> getProp r j = getProp acc j"
proof (induction es arbitrary: acc)
  case Nil
  then show ?case by simp
next
  case (Cons e es)
  obtain k v where e: "e = (k, v)" by (cases e)
  from Cons.prems(1) obtain acc' where s: "enrichStep acc (k, v) = Inr acc'"
    and r: "enrich acc' es = Inr r"
    by (auto simp: e split: sum.splits)
  have "getProp r j = getProp acc' j"
    using Cons.IH [OF r] Cons.prems by auto
  also have "\<dots> = getProp acc j"
    using enrichStep_other [OF s] Cons.prems e by auto
  finally show ?case .
qed

lemma enrichStep_key:
  assumes "enrichStep acc (k, v) = Inr acc'" and "k \<noteq> str ''__proto__''"
  shows "getProp acc' k = Some v"
  using assms
  by (auto simp: enrichStep_def split: option.splits if_splits sum.splits
           dest!: getProp_setProp_same)

lemma enrich_key:
  "enrich acc es = Inr r \<Longrightarrow> distinct (map fst es) \<Longrightarrow> (k, v) \<in> set es \<Longrightarrow>
   k \<noteq> str ''__proto__'' \<Longrightarrow> k \<noteq> str ''length'' \<Longrightarrow> k \<notin> overwrittenKey ` fst ` set es \<Longrightarrow>
   getProp r k = Some v"
proof (induction es arbitrary: acc)
  case Nil
  then show ?case by simp
next
  case (Cons e es)
  obtain k' v' where e: "e = (k', v')" by (cases e)
  from Cons.prems(1) obtain acc' where s: "enrichStep acc (k', v') = Inr acc'"
    and r: "enrich acc' es = Inr r"
    by (auto simp: e split: sum.splits)
  show ?case
  proof (cases "k' = k")
    case True
    have notin: "k \<notin> fst ` set es"
      using Cons.prems(2) e True by simp
    then have v: "v' = v"
      using Cons.prems(3) e True by force
    have nov: "k \<notin> overwrittenKey ` fst ` set es"
      using Cons.prems(6) by auto
    have "getProp r k = getProp acc' k"
      using enrich_other [OF r notin nov Cons.prems(5)] .
    also have "\<dots> = Some v"
      using enrichStep_key [of acc k v acc'] s True v Cons.prems(4) by simp
    finally show ?thesis .
  next
    case False
    with Cons.prems e have in_rest: "(k, v) \<in> set es" by auto
    show ?thesis
      using Cons.IH [OF r _ in_rest] Cons.prems by auto
  qed
qed

lemma objectAssign_other:
  "objectAssign acc es = Inr r \<Longrightarrow> j \<notin> fst ` set es \<Longrightarrow>
   j \<noteq> str ''length'' \<or> (\<forall>k \<in> fst ` set es. arrayIndex k = None) \<Longrightarrow>
   getProp r j = getProp acc j"
proof (induction es arbitrary: acc)
  case Nil
  then show ?case by simp
next
  case (Cons e es)
  obtain k v where e: "e = (k, v)" by (cases e)
  from Cons.prems(1) obtain acc' where s: "setProp acc k v = Inr acc'"
    and r: "objectAssign acc' es = Inr r"
    by (auto simp: e split: sum.splits)
  have "getProp r j = getProp acc' j"
    using Cons.IH [OF r] Cons.prems by auto
  also have "\<dots> = getProp acc j"
    using getProp_setProp_other [OF s] Cons.prems e by auto
  finally show ?case .
qed

section \<open>The lifecycle parser on a START line\<close>

text \<open>
  C4. On the line \<open>START RequestId: 123e4567-e89b-12d3-a456-426614174000 Version: $LATEST\<close>
  the parser gives \<open>lambdaEvent = START\<close> and \<open>lambdaVersion = $LATEST\<close> in the nested
  statistics, but the request identifier it extracts is not the full identifier of 36
  characters: \<open>fieldValue\<close> takes 36 code units from the position just after \<open>RequestId:\<close>,
  the first of them is the space that follows the colon, and the trim leaves the first 35
  characters of the identifier; its last character is lost.
\<close>

theorem C4_start_line_request_id_is_cut:
  "parseLambdaLogLine dateParse logGroup
     (str ''START RequestId: 123e4567-e89b-12d3-a456-426614174000 Version: $LATEST'') =
   Inr (JObj
     [(str ''lambdaEvent'', JStr (str ''START'')),
      (str ''lambdaRequestId'', JStr (str ''123e4567-e89b-12d3-a456-42661417400'')),
      (str ''lambdaStats'', JObj [(str ''lambdaVersion'', JStr (str ''$LATEST''))]),
      (str ''message'',
       JStr (str ''START RequestId: 123e4567-e89b-12d3-a456-426614174000 Version: $LATEST''))])"
  by (simp add: parseLambdaLogLine_def lambdaRequestLogData_def isRequestLogEntry_def
      startsWith_def fieldValue_def substr_def trim_def isWhiteSpace_def str_def)

section \<open>Lines on which building the record throws\<close>

lemma parse_null: "parseLambdaLogLine dateParse logGroup (str ''null'') = Inr JNull"
  by (simp add: parseLambdaLogLine_def lambdaRequestLogData_def isRequestLogEntry_def
      startsWith_def parseNodeLogFormat_def parseMessageJson_def JSON_parse_def trim_def
      isWhiteSpace_def isJsonSpace_def isDigit_def str_def)

lemma trim_null: "trim (str ''null'') = str ''null''"
  by (simp add: trim_def isWhiteSpace_def str_def)

lemma parse_report_no_colon:
  "parseLambdaLogLine dateParse logGroup (str ''REPORT RequestId: abc'' @ 9 # str ''no colon here'')
     = Inl TypeError"
  by (simp add: parseLambdaLogLine_def lambdaRequestLogData_def isRequestLogEntry_def
      startsWith_def fieldValue_def substr_def trim_def isWhiteSpace_def parseReportField_def str_def)

lemma trim_report: "trim (str ''REPORT RequestId: abc'' @ 9 # str ''no colon here'') =
   str ''REPORT RequestId: abc'' @ 9 # str ''no colon here''"
  by (simp add: trim_def isWhiteSpace_def str_def)

text \<open>
  C1. Parsing a line and building its record does not always succeed. The line \<open>null\<close> is
  valid JSON, so \<open>parseMessageJson\<close> returns the value \<open>null\<close> instead of a record, and
  \<open>createStructuredLog\<close> throws a \<open>TypeError\<close> when it reads \<open>structuredLog.timestamp\<close>.
  A \<open>REPORT\<close> line with a tab-separated segment that has no colon makes \<open>parseReportField\<close>
  throw a \<open>TypeError\<close>, which no parser stage catches. Both hold for every date parser,
  every event id and time, and every supplemental mapping.
\<close>

theorem C1_line_errors_propagate:
  "createStructuredLog dateParse logGroup
      \<lparr>id' = eventId, timestamp = t, message = str ''null''\<rparr> extraFields = Inl TypeError \<and>
   createStructuredLog dateParse logGroup
      \<lparr>id' = eventId, timestamp = t,
       message = str ''REPORT RequestId: abc'' @ 9 # str ''no colon here''\<rparr> extraFields
     = Inl TypeError"
  by (simp add: createStructuredLog_def bindE_def trim_null parse_null readProp_def
        trim_report parse_report_no_colon)

section \<open>The steps of createStructuredLog\<close>

lemma createStructuredLog_Inr:
  assumes "createStructuredLog dateParse logGroup logEvent extraFields = Inr r"
  obtains structuredLog parsed stamp target publishable where
    "parseLambdaLogLine dateParse logGroup (trim (message logEvent)) = Inr structuredLog"
    "readProp structuredLog (str ''timestamp'') = Inr parsed"
    "(if truthy parsed then Inr (case parsed of Some v \<Rightarrow> v | None \<Rightarrow> JNull)
      else map_sum (\<lambda>e. e) JStr (toISOString (timestamp logEvent))) = Inr stamp"
    "toObject structuredLog = Inr target"
    "objectAssign target
       [(str ''@timestamp'', stamp), (str ''cloudwatchId'', JStr (id' logEvent)),
        (str ''cloudwatchLogGroup'', JStr logGroup)] = Inr publishable"
    "enrich publishable extraFields = Inr r"
  using assms unfolding createStructuredLog_def bindE_def
  by (auto split: sum.splits)

lemma length_pad: "length (pad w n) = w"
  by (simp add: pad_def)

lemma toISOString_length:
  assumes "toISOString t = Inr s"
  shows "length s = 24 \<or> length s = 27"
proof -
  obtain y m d where c: "civilFromDays (t div 86400000) = (y, m, d)"
    by (cases "civilFromDays (t div 86400000)") auto
  from assms have r: "\<not> \<bar>t\<bar> > 8640000000000000"
    unfolding toISOString_def by (auto split: if_splits)
  show ?thesis
  proof (cases "0 \<le> y \<and> y \<le> 9999")
    case True
    with assms r c have "length s = 24"
      unfolding toISOString_def Let_def by (auto simp: length_pad)
    then show ?thesis by simp
  next
    case False
    with assms r c have "length s = 27"
      unfolding toISOString_def Let_def by (auto simp: length_pad)
    then show ?thesis by simp
  qed
qed

lemma reserved_keys:
  "arrayIndex (str ''@timestamp'') = None" "arrayIndex (str ''cloudwatchId'') = None"
  "arrayIndex (str ''cloudwatchLogGroup'') = None"
  "str ''@timestamp'' \<noteq> str ''__proto__''" "str ''cloudwatchId'' \<noteq> str ''__proto__''"
  "str ''cloudwatchLogGroup'' \<noteq> str ''__proto__''"
  "str ''@timestamp'' \<noteq> str ''cloudwatchId''" "str ''@timestamp'' \<noteq> str ''cloudwatchLogGroup''"
  "str ''cloudwatchId'' \<noteq> str ''cloudwatchLogGroup''"
  by (simp_all add: arrayIndex_def str_def isDigit_def)

lemma publishable_props:
  assumes "objectAssign target
       [(str ''@timestamp'', stamp), (str ''cloudwatchId'', JStr i),
        (str ''cloudwatchLogGroup'', JStr g)] = Inr publishable"
  shows "getProp publishable (str ''@timestamp'') = Some stamp"
    and "getProp publishable (str ''cloudwatchId'') = Some (JStr i)"
    and "getProp publishable (str ''cloudwatchLogGroup'') = Some (JStr g)"
    and "j \<notin> {str ''@timestamp'', str ''cloudwatchId'', str ''cloudwatchLogGroup''} \<Longrightarrow>
         getProp publishable j = getProp target j"
proof -
  from assms obtain a b where
    1: "setProp target (str ''@timestamp'') stamp = Inr a" and
    2: "setProp a (str ''cloudwatchId'') (JStr i) = Inr b" and
    3: "setProp b (str ''cloudwatchLogGroup'') (JStr g) = Inr publishable"
    by (auto split: sum.splits)
  have "getProp a (str ''@timestamp'') = Some stamp"
    using getProp_setProp_same [OF 1] reserved_keys by simp
  then have "getProp b (str ''@timestamp'') = Some stamp"
    using getProp_setProp_other [OF 2, of "str ''@timestamp''"] reserved_keys by simp
  then show "getProp publishable (str ''@timestamp'') = Some stamp"
    using getProp_setProp_other [OF 3, of "str ''@timestamp''"] reserved_keys by simp
  have "getProp b (str ''cloudwatchId'') = Some (JStr i)"
    using getProp_setProp_same [OF 2] reserved_keys by simp
  then show "getProp publishable (str ''cloudwatchId'') = Some (JStr i)"
    using getProp_setProp_other [OF 3, of "str ''cloudwatchId''"] reserved_keys by simp
  show "getProp publishable (str ''cloudwatchLogGroup'') = Some (JStr g)"
    using getProp_setProp_same [OF 3] reserved_keys by simp
  show "getProp publishable j = getProp target j"
    if "j \<notin> {str ''@timestamp'', str ''cloudwatchId'', str ''cloudwatchLogGroup''}"
  proof -
    have "getProp publishable j = getProp b j"
      using getProp_setProp_other [OF 3, of j] reserved_keys that by simp
    also have "\<dots> = getProp a j"
      using getProp_setProp_other [OF 2, of j] reserved_keys that by simp
    also have "\<dots> = getProp target j"
      using getProp_setProp_other [OF 1, of j] reserved_keys that by simp
    finally show ?thesis .
  qed
qed

lemma stamp_truthy:
  assumes "(if truthy parsed then Inr (case parsed of Some v \<Rightarrow> v | None \<Rightarrow> JNull)
      else map_sum (\<lambda>e. e) JStr (toISOString t)) = Inr stamp"
  shows "truthy (Some stamp)"
    and "if truthy parsed then Some stamp = parsed
         else (\<exists>iso. toISOString t = Inr iso \<and> stamp = JStr iso)"
proof -
  show 2: "if truthy parsed then Some stamp = parsed
         else (\<exists>iso. toISOString t = Inr iso \<and> stamp = JStr iso)"
    using assms by (cases parsed; cases "toISOString t") (auto split: if_splits)
  show "truthy (Some stamp)"
  proof (cases "truthy parsed")
    case True
    with 2 show ?thesis by simp
  next
    case False
    with 2 obtain iso where "toISOString t = Inr iso" "stamp = JStr iso" by auto
    then show ?thesis using toISOString_length [of t iso] by auto
  qed
qed

section \<open>Concrete runs\<close>

lemmas string_evals = str_def trim_def isWhiteSpace_def isDigit_def isJsonSpace_def

lemmas parser_evals = parseLambdaLogLine_def lambdaRequestLogData_def isRequestLogEntry_def
  startsWith_def parseNodeLogFormat_def parseMessageJson_def JSON_parse_def

lemma iso_example_time: "toISOString 1672531200000 = Inr (str ''2023-01-01T00:00:00.000Z'')"
proof -
  have "civilFromDays 19358 = (2023, 1, 1)"
    unfolding civilFromDays_def Let_def by simp
  then show ?thesis
    unfolding toISOString_def Let_def by (simp add: pad_def str_def upt_rec)
qed

lemma parse_hello: "parseLambdaLogLine dateParse logGroup (str ''hello'') =
    Inr (JObj [(str ''message'', JStr (str ''hello''))])"
  by (simp add: parser_evals string_evals)

lemma trim_hello: "trim (str ''hello'') = str ''hello''"
  by (simp add: string_evals)

lemma create_hello:
  "createStructuredLog dateParse (str ''grp'') (exampleEvent (str ''hello'')) extraFields =
   enrich (Obj Plain [(str ''message'', JStr (str ''hello'')),
                   (str ''@timestamp'', JStr (str ''2023-01-01T00:00:00.000Z'')),
                   (str ''cloudwatchId'', JStr (str ''e1'')),
                   (str ''cloudwatchLogGroup'', JStr (str ''grp''))]) extraFields"
  unfolding createStructuredLog_def exampleEvent_def
  by (simp add: trim_hello parse_hello iso_example_time bindE_def readProp_def assignOwn_def str_inject)

section \<open>Without supplemental fields\<close>

text \<open>
  C10. When the supplemental mapping is empty and \<open>createStructuredLog\<close> returns a record,
  every key other than \<open>@timestamp\<close>, \<open>cloudwatchId\<close> and \<open>cloudwatchLogGroup\<close> reads in the
  record exactly as it reads in the output of the parser; in particular no
  \<open>overwrittenFields\<close> entry is added.
\<close>

theorem C10_no_supplement_keeps_parsed_fields:
  assumes "createStructuredLog dateParse logGroup logEvent [] = Inr r"
  shows "\<exists>structuredLog.
           parseLambdaLogLine dateParse logGroup (trim (message logEvent)) = Inr structuredLog \<and>
           (\<forall>k. k \<notin> {str ''@timestamp'', str ''cloudwatchId'', str ''cloudwatchLogGroup''} \<longrightarrow>
                readProp structuredLog k = Inr (getProp r k)) \<and>
           (\<forall>key. readProp structuredLog (overwrittenKey key) = Inr (getProp r (overwrittenKey key)))"
proof -
  from assms obtain structuredLog parsed stamp target publishable where
    p: "parseLambdaLogLine dateParse logGroup (trim (message logEvent)) = Inr structuredLog" and
    t: "toObject structuredLog = Inr target" and
    a: "objectAssign target
       [(str ''@timestamp'', stamp), (str ''cloudwatchId'', JStr (id' logEvent)),
        (str ''cloudwatchLogGroup'', JStr logGroup)] = Inr publishable" and
    e: "enrich publishable [] = Inr r"
    by (rule createStructuredLog_Inr)
  from e have r: "r = publishable" by simp
  have same: "readProp structuredLog k = Inr (getProp r k)"
    if "k \<notin> {str ''@timestamp'', str ''cloudwatchId'', str ''cloudwatchLogGroup''}" for k
    using publishable_props(4) [OF a that] t r by (simp add: readProp_def)
  have ov: "overwrittenKey key \<notin> {str ''@timestamp'', str ''cloudwatchId'', str ''cloudwatchLogGroup''}" for key
    by (simp add: overwrittenKey_def str_def)
  show ?thesis
    using p same ov by blast
qed

text \<open>The statement at the message \<open>hello\<close>: the parsed \<open>message\<close> field is in the record.\<close>

theorem C10_witness:
  "createStructuredLog isoDateParse (str ''grp'') (exampleEvent (str ''hello'')) [] =
   Inr (Obj Plain [(str ''message'', JStr (str ''hello'')),
                   (str ''@timestamp'', JStr (str ''2023-01-01T00:00:00.000Z'')),
                   (str ''cloudwatchId'', JStr (str ''e1'')),
                   (str ''cloudwatchLogGroup'', JStr (str ''grp''))]) \<and>
   parseLambdaLogLine isoDateParse (str ''grp'') (trim (message (exampleEvent (str ''hello'')))) =
     Inr (JObj [(str ''message'', JStr (str ''hello''))]) \<and>
   readProp (JObj [(str ''message'', JStr (str ''hello''))]) (str ''message'') =
     Inr (getProp (Obj Plain [(str ''message'', JStr (str ''hello'')),
                   (str ''@timestamp'', JStr (str ''2023-01-01T00:00:00.000Z'')),
                   (str ''cloudwatchId'', JStr (str ''e1'')),
                   (str ''cloudwatchLogGroup'', JStr (str ''grp''))]) (str ''message''))"
proof -
  have 1: "createStructuredLog isoDateParse (str ''grp'') (exampleEvent (str ''hello'')) [] =
   Inr (Obj Plain [(str ''message'', JStr (str ''hello'')),
                   (str ''@timestamp'', JStr (str ''2023-01-01T00:00:00.000Z'')),
                   (str ''cloudwatchId'', JStr (str ''e1'')),
                   (str ''cloudwatchLogGroup'', JStr (str ''grp''))])"
    unfolding create_hello by simp
  have 2: "parseLambdaLogLine isoDateParse (str ''grp'') (trim (message (exampleEvent (str ''hello'')))) =
     Inr (JObj [(str ''message'', JStr (str ''hello''))])"
    by (simp add: exampleEvent_def trim_hello parse_hello)
  have 3: "str ''message'' \<notin> {str ''@timestamp'', str ''cloudwatchId'', str ''cloudwatchLogGroup''}"
    by (simp add: str_def)
  from C10_no_supplement_keeps_parsed_fields [OF 1] 2 3 show ?thesis
    using 1 by auto
qed

section \<open>The timestamp of a record\<close>

text \<open>
  C3, as the code has it. When \<open>createStructuredLog\<close> returns a record and the supplemental
  mapping has no key \<open>@timestamp\<close>, the record's \<open>@timestamp\<close> is truthy (in particular it
  is not the empty string): it is the \<open>timestamp\<close> of the parser output when that value is
  truthy, and otherwise the ISO string of the event's ingestion time. A \<open>timestamp\<close> that
  is present but falsy (\<open>0\<close>, the empty string, \<open>false\<close>, \<open>null\<close>) is not promoted.
\<close>

theorem C3_timestamp_present:
  assumes "createStructuredLog dateParse logGroup logEvent extraFields = Inr r"
    and "str ''@timestamp'' \<notin> fst ` set extraFields"
  shows "truthy (getProp r (str ''@timestamp'')) \<and>
         (\<exists>structuredLog parsed.
            parseLambdaLogLine dateParse logGroup (trim (message logEvent)) = Inr structuredLog \<and>
            readProp structuredLog (str ''timestamp'') = Inr parsed \<and>
            (if truthy parsed then getProp r (str ''@timestamp'') = parsed
             else (\<exists>iso. toISOString (timestamp logEvent) = Inr iso \<and>
                         getProp r (str ''@timestamp'') = Some (JStr iso))))"
proof -
  from assms(1) obtain structuredLog parsed stamp target publishable where
    p: "parseLambdaLogLine dateParse logGroup (trim (message logEvent)) = Inr structuredLog" and
    rd: "readProp structuredLog (str ''timestamp'') = Inr parsed" and
    st: "(if truthy parsed then Inr (case parsed of Some v \<Rightarrow> v | None \<Rightarrow> JNull)
      else map_sum (\<lambda>e. e) JStr (toISOString (timestamp logEvent))) = Inr stamp" and
    a: "objectAssign target
       [(str ''@timestamp'', stamp), (str ''cloudwatchId'', JStr (id' logEvent)),
        (str ''cloudwatchLogGroup'', JStr logGroup)] = Inr publishable" and
    e: "enrich publishable extraFields = Inr r"
    by (rule createStructuredLog_Inr)
  have nov: "str ''@timestamp'' \<notin> overwrittenKey ` fst ` set extraFields"
    by (auto simp: overwrittenKey_def str_def)
  have nl: "str ''@timestamp'' \<noteq> str ''length''"
    by (simp add: str_def)
  have "getProp r (str ''@timestamp'') = getProp publishable (str ''@timestamp'')"
    using enrich_other [OF e assms(2) nov nl] .
  then have g: "getProp r (str ''@timestamp'') = Some stamp"
    using publishable_props(1) [OF a] by simp
  show ?thesis
    using g p rd stamp_truthy [OF st] by auto
qed

text \<open>
  The claim as stated fails twice: a supplemental field \<open>@timestamp\<close> with the empty string
  as value leaves the record with an empty \<open>@timestamp\<close>; and on the line
  \<open>{"timestamp":0}\<close> the parser output contains a \<open>timestamp\<close> field, which is not promoted.
\<close>

theorem C3_counterexample:
  "createStructuredLog isoDateParse (str ''grp'') (exampleEvent (str ''hello''))
      [(str ''@timestamp'', JStr [])] =
   Inr (Obj Plain [(str ''message'', JStr (str ''hello'')),
                   (str ''@timestamp'', JStr []),
                   (str ''cloudwatchId'', JStr (str ''e1'')),
                   (str ''cloudwatchLogGroup'', JStr (str ''grp'')),
                   (overwrittenKey (str ''@timestamp''), JStr (str ''2023-01-01T00:00:00.000Z''))]) \<and>
   createStructuredLog isoDateParse (str ''grp'')
      (exampleEvent (str ''{'' @ quoted (str ''timestamp'') @ str '':0}'')) [] =
   Inr (Obj Plain [(str ''timestamp'', JNum (Finite 0)),
                   (str ''@timestamp'', JStr (str ''2023-01-01T00:00:00.000Z'')),
                   (str ''cloudwatchId'', JStr (str ''e1'')),
                   (str ''cloudwatchLogGroup'', JStr (str ''grp''))])"
proof -
  have 1: "createStructuredLog isoDateParse (str ''grp'') (exampleEvent (str ''hello''))
      [(str ''@timestamp'', JStr [])] =
   Inr (Obj Plain [(str ''message'', JStr (str ''hello'')),
                   (str ''@timestamp'', JStr []),
                   (str ''cloudwatchId'', JStr (str ''e1'')),
                   (str ''cloudwatchLogGroup'', JStr (str ''grp'')),
                   (overwrittenKey (str ''@timestamp''), JStr (str ''2023-01-01T00:00:00.000Z''))])"
    unfolding create_hello by (simp add: enrichStep_def assignOwn_def overwrittenKey_def str_def)
  have t: "trim (str ''{'' @ quoted (str ''timestamp'') @ str '':0}'') =
           str ''{'' @ quoted (str ''timestamp'') @ str '':0}''"
    by (simp add: string_evals quoted_def)
  have p: "parseLambdaLogLine isoDateParse (str ''grp'')
        (str ''{'' @ quoted (str ''timestamp'') @ str '':0}'') =
      Inr (JObj [(str ''timestamp'', JNum (Finite 0))])"
    by (simp add: parser_evals string_evals quoted_def lexNumber_def readExponent_def scale10_def)
  have 2: "createStructuredLog isoDateParse (str ''grp'')
      (exampleEvent (str ''{'' @ quoted (str ''timestamp'') @ str '':0}'')) [] =
   Inr (Obj Plain [(str ''timestamp'', JNum (Finite 0)),
                   (str ''@timestamp'', JStr (str ''2023-01-01T00:00:00.000Z'')),
                   (str ''cloudwatchId'', JStr (str ''e1'')),
                   (str ''cloudwatchLogGroup'', JStr (str ''grp''))])"
    unfolding createStructuredLog_def exampleEvent_def
    by (simp add: t p iso_example_time bindE_def readProp_def assignOwn_def str_inject)
  show ?thesis using 1 2 by simp
qed

theorem C3_witness:
  "createStructuredLog isoDateParse (str ''grp'') (exampleEvent (str ''hello''))
      [(str ''env'', JStr (str ''prod''))] =
   Inr (Obj Plain [(str ''message'', JStr (str ''hello'')),
                   (str ''@timestamp'', JStr (str ''2023-01-01T00:00:00.000Z'')),
                   (str ''cloudwatchId'', JStr (str ''e1'')),
                   (str ''cloudwatchLogGroup'', JStr (str ''grp'')),
                   (str ''env'', JStr (str ''prod''))]) \<and>
   str ''@timestamp'' \<notin> fst ` set [(str ''env'', JStr (str ''prod''))] \<and>
   truthy (getProp (Obj Plain [(str ''message'', JStr (str ''hello'')),
                   (str ''@timestamp'', JStr (str ''2023-01-01T00:00:00.000Z'')),
                   (str ''cloudwatchId'', JStr (str ''e1'')),
                   (str ''cloudwatchLogGroup'', JStr (str ''grp'')),
                   (str ''env'', JStr (str ''prod''))]) (str ''@timestamp''))"
proof -
  have 1: "createStructuredLog isoDateParse (str ''grp'') (exampleEvent (str ''hello''))
      [(str ''env'', JStr (str ''prod''))] =
   Inr (Obj Plain [(str ''message'', JStr (str ''hello'')),
                   (str ''@timestamp'', JStr (str ''2023-01-01T00:00:00.000Z'')),
                   (str ''cloudwatchId'', JStr (str ''e1'')),
                   (str ''cloudwatchLogGroup'', JStr (str ''grp'')),
                   (str ''env'', JStr (str ''prod''))])"
    unfolding create_hello by (simp add: enrichStep_def assignOwn_def overwrittenKey_def str_def)
  have 2: "str ''@timestamp'' \<notin> fst ` set [(str ''env'', JStr (str ''prod''))]"
    by (simp add: str_def)
  from C3_timestamp_present [OF 1 2] show ?thesis using 1 2 by blast
qed

text \<open>
  A supplemental field \<open>@timestamp\<close> overwrites the field like any other key: whenever
  \<open>createStructuredLog\<close> returns a record, its \<open>@timestamp\<close> is the supplemental value.
\<close>

lemma supplemental_timestamp_overwrites:
  assumes "createStructuredLog dateParse logGroup logEvent extraFields = Inr r"
    and "distinct (map fst extraFields)" and "(str ''@timestamp'', v) \<in> set extraFields"
  shows "getProp r (str ''@timestamp'') = Some v"
proof -
  from assms(1) obtain publishable where e: "enrich publishable extraFields = Inr r"
    by (rule createStructuredLog_Inr)
  have "str ''@timestamp'' \<noteq> str ''__proto__''" "str ''@timestamp'' \<noteq> str ''length''"
    "str ''@timestamp'' \<notin> overwrittenKey ` fst ` set extraFields"
    by (auto simp: overwrittenKey_def str_def)
  then show ?thesis
    using enrich_key [OF e assms(2,3)] by simp
qed

section \<open>The reserved fields of a record\<close>

lemma message_key_facts:
  "str ''message'' \<noteq> str ''length''" "str ''message'' \<noteq> str ''level''"
  "str ''message'' \<noteq> str ''lambdaRequestId''" "str ''message'' \<noteq> str ''lambdaStats''"
  "str ''message'' \<notin> {str ''@timestamp'', str ''cloudwatchId'', str ''cloudwatchLogGroup''}"
  "str ''message'' \<noteq> overwrittenKey k"
  by (simp_all add: str_def overwrittenKey_def)

lemma lifecycle_message:
  assumes "isRequestLogEntry line" and "parseLambdaLogLine dateParse logGroup line = Inr structuredLog"
  shows "\<exists>fs. structuredLog = JObj fs \<and> map_of fs (str ''message'') = Some (JStr line)"
  using assms
  by (auto simp: parseLambdaLogLine_def lambdaRequestLogData_def Let_def update_conv'
           split: sum.splits if_splits)

lemma fallback_message:
  assumes "\<not> isRequestLogEntry line" and "parseNodeLogFormat dateParse logGroup line = None"
    and "JSON_parse (trim line) = None"
  shows "parseLambdaLogLine dateParse logGroup line = Inr (JObj [(str ''message'', JStr (trim line))])"
  using assms
  by (simp add: parseLambdaLogLine_def lambdaRequestLogData_def parseMessageJson_def)

lemma node_message:
  assumes "\<not> isRequestLogEntry line" and "splitOn 9 line = d # req # lvl # m # ms"
    and "dateParse d \<noteq> None" and "JSON_parse (trim (joinWith 9 (m # ms))) = None"
  shows "\<exists>fs. parseLambdaLogLine dateParse logGroup line = Inr (JObj fs) \<and>
              map_of fs (str ''message'') = Some (JStr (trim (joinWith 9 (m # ms))))"
  using assms message_key_facts
  by (simp add: parseLambdaLogLine_def lambdaRequestLogData_def parseNodeLogFormat_def
        parseMessageJson_def update_conv')

text \<open>
  C7, as the code has it. When \<open>createStructuredLog\<close> returns a record and no supplemental
  key is one of \<open>@timestamp\<close>, \<open>cloudwatchId\<close>, \<open>cloudwatchLogGroup\<close>, \<open>message\<close>, the record has
  \<open>cloudwatchId\<close> (the event id), \<open>cloudwatchLogGroup\<close> (the source name) and \<open>@timestamp\<close>
  (the truthy \<open>timestamp\<close> of the parser output, whatever it is, and otherwise the ISO string
  of the ingestion time); and it has \<open>message\<close> wherever a parser did not return parsed JSON in
  its place: the whole line for a lifecycle line, the trimmed line when the fallback parser
  finds no JSON, the trimmed message part when the tab-delimited parser finds no JSON.
\<close>

theorem C7_reserved_fields:
  assumes "createStructuredLog dateParse logGroup logEvent extraFields = Inr r"
    and "\<forall>k \<in> fst ` set extraFields.
           k \<notin> {str ''@timestamp'', str ''cloudwatchId'', str ''cloudwatchLogGroup'', str ''message''}"
  shows "getProp r (str ''cloudwatchId'') = Some (JStr (id' logEvent)) \<and>
         getProp r (str ''cloudwatchLogGroup'') = Some (JStr logGroup) \<and>
         (\<exists>structuredLog parsed.
            parseLambdaLogLine dateParse logGroup (trim (message logEvent)) = Inr structuredLog \<and>
            readProp structuredLog (str ''timestamp'') = Inr parsed \<and>
            (if truthy parsed then getProp r (str ''@timestamp'') = parsed
             else (\<exists>iso. toISOString (timestamp logEvent) = Inr iso \<and>
                         getProp r (str ''@timestamp'') = Some (JStr iso)))) \<and>
         (isRequestLogEntry (trim (message logEvent)) \<longrightarrow>
            getProp r (str ''message'') = Some (JStr (trim (message logEvent)))) \<and>
         (\<not> isRequestLogEntry (trim (message logEvent)) \<and>
          parseNodeLogFormat dateParse logGroup (trim (message logEvent)) = None \<and>
          JSON_parse (trim (trim (message logEvent))) = None \<longrightarrow>
            getProp r (str ''message'') = Some (JStr (trim (trim (message logEvent))))) \<and>
         (\<forall>d req lvl m ms.
            \<not> isRequestLogEntry (trim (message logEvent)) \<and>
            splitOn 9 (trim (message logEvent)) = d # req # lvl # m # ms \<and>
            dateParse d \<noteq> None \<and> JSON_parse (trim (joinWith 9 (m # ms))) = None \<longrightarrow>
            getProp r (str ''message'') = Some (JStr (trim (joinWith 9 (m # ms)))))"
proof -
  from assms(1) obtain structuredLog parsed stamp target publishable where
    p: "parseLambdaLogLine dateParse logGroup (trim (message logEvent)) = Inr structuredLog" and
    rd: "readProp structuredLog (str ''timestamp'') = Inr parsed" and
    st: "(if truthy parsed then Inr (case parsed of Some v \<Rightarrow> v | None \<Rightarrow> JNull)
      else map_sum (\<lambda>e. e) JStr (toISOString (timestamp logEvent))) = Inr stamp" and
    t: "toObject structuredLog = Inr target" and
    a: "objectAssign target
       [(str ''@timestamp'', stamp), (str ''cloudwatchId'', JStr (id' logEvent)),
        (str ''cloudwatchLogGroup'', JStr logGroup)] = Inr publishable" and
    e: "enrich publishable extraFields = Inr r"
    by (rule createStructuredLog_Inr)
  have kept: "getProp r j = getProp publishable j"
    if "j \<in> {str ''@timestamp'', str ''cloudwatchId'', str ''cloudwatchLogGroup'', str ''message''}" for j
  proof -
    have 1: "j \<notin> fst ` set extraFields" using assms(2) that by blast
    have 2: "j \<notin> overwrittenKey ` fst ` set extraFields"
      using that by (auto simp: overwrittenKey_def str_def)
    have 3: "j \<noteq> str ''length''" using that by (auto simp: str_def)
    show ?thesis using enrich_other [OF e 1 2 3] .
  qed
  have c1: "getProp r (str ''cloudwatchId'') = Some (JStr (id' logEvent))"
    using kept publishable_props(2) [OF a] by simp
  have c2: "getProp r (str ''cloudwatchLogGroup'') = Some (JStr logGroup)"
    using kept publishable_props(3) [OF a] by simp
  have g: "getProp r (str ''@timestamp'') = Some stamp"
    using kept publishable_props(1) [OF a] by simp
  have c3: "\<exists>structuredLog parsed.
            parseLambdaLogLine dateParse logGroup (trim (message logEvent)) = Inr structuredLog \<and>
            readProp structuredLog (str ''timestamp'') = Inr parsed \<and>
            (if truthy parsed then getProp r (str ''@timestamp'') = parsed
             else (\<exists>iso. toISOString (timestamp logEvent) = Inr iso \<and>
                         getProp r (str ''@timestamp'') = Some (JStr iso)))"
    using g p rd stamp_truthy(2) [OF st] by auto
  have msg: "getProp r (str ''message'') = map_of fs (str ''message'')" if "structuredLog = JObj fs" for fs
  proof -
    have "getProp r (str ''message'') = getProp publishable (str ''message'')"
      using kept by simp
    also have "\<dots> = getProp target (str ''message'')"
      using publishable_props(4) [OF a message_key_facts(5)] .
    also have "\<dots> = map_of fs (str ''message'')"
      using t that by (auto split: option.splits)
    finally show ?thesis .
  qed
  have c4: "isRequestLogEntry (trim (message logEvent)) \<longrightarrow>
            getProp r (str ''message'') = Some (JStr (trim (message logEvent)))"
    using lifecycle_message [OF _ p] msg by auto
  have c5: "\<not> isRequestLogEntry (trim (message logEvent)) \<and>
          parseNodeLogFormat dateParse logGroup (trim (message logEvent)) = None \<and>
          JSON_parse (trim (trim (message logEvent))) = None \<longrightarrow>
            getProp r (str ''message'') = Some (JStr (trim (trim (message logEvent))))"
    using fallback_message [of "trim (message logEvent)" dateParse logGroup] p msg by auto
  have c6: "\<forall>d req lvl m ms.
            \<not> isRequestLogEntry (trim (message logEvent)) \<and>
            splitOn 9 (trim (message logEvent)) = d # req # lvl # m # ms \<and>
            dateParse d \<noteq> None \<and> JSON_parse (trim (joinWith 9 (m # ms))) = None \<longrightarrow>
            getProp r (str ''message'') = Some (JStr (trim (joinWith 9 (m # ms))))"
  proof (intro allI impI)
    fix d req lvl m ms
    assume h: "\<not> isRequestLogEntry (trim (message logEvent)) \<and>
            splitOn 9 (trim (message logEvent)) = d # req # lvl # m # ms \<and>
            dateParse d \<noteq> None \<and> JSON_parse (trim (joinWith 9 (m # ms))) = None"
    then obtain fs where
      "parseLambdaLogLine dateParse logGroup (trim (message logEvent)) = Inr (JObj fs)"
      "map_of fs (str ''message'') = Some (JStr (trim (joinWith 9 (m # ms))))"
      using node_message [of "trim (message logEvent)" d req lvl m ms dateParse logGroup] by blast
    then show "getProp r (str ''message'') = Some (JStr (trim (joinWith 9 (m # ms))))"
      using p msg by auto
  qed
  show ?thesis using c1 c2 c3 c4 c5 c6 by blast
qed

text \<open>
  The claim as stated fails twice: a supplemental field \<open>cloudwatchId\<close> replaces the event
  id (which moves to \<open>overwrittenFields.cloudwatchId\<close>); and on the line
  \<open>{"timestamp":"soon"}\<close> the record's \<open>@timestamp\<close> is \<open>soon\<close>, which is no ISO-8601 string.
\<close>

theorem C7_counterexample:
  "createStructuredLog isoDateParse (str ''grp'') (exampleEvent (str ''hello''))
      [(str ''cloudwatchId'', JStr (str ''x''))] =
   Inr (Obj Plain [(str ''message'', JStr (str ''hello'')),
                   (str ''@timestamp'', JStr (str ''2023-01-01T00:00:00.000Z'')),
                   (str ''cloudwatchId'', JStr (str ''x'')),
                   (str ''cloudwatchLogGroup'', JStr (str ''grp'')),
                   (overwrittenKey (str ''cloudwatchId''), JStr (str ''e1''))]) \<and>
   createStructuredLog isoDateParse (str ''grp'')
      (exampleEvent (str ''{'' @ quoted (str ''timestamp'') @ str '':'' @ quoted (str ''soon'') @ str ''}'')) [] =
   Inr (Obj Plain [(str ''timestamp'', JStr (str ''soon'')),
                   (str ''@timestamp'', JStr (str ''soon'')),
                   (str ''cloudwatchId'', JStr (str ''e1'')),
                   (str ''cloudwatchLogGroup'', JStr (str ''grp''))])"
proof -
  have 1: "createStructuredLog isoDateParse (str ''grp'') (exampleEvent (str ''hello''))
      [(str ''cloudwatchId'', JStr (str ''x''))] =
   Inr (Obj Plain [(str ''message'', JStr (str ''hello'')),
                   (str ''@timestamp'', JStr (str ''2023-01-01T00:00:00.000Z'')),
                   (str ''cloudwatchId'', JStr (str ''x'')),
                   (str ''cloudwatchLogGroup'', JStr (str ''grp'')),
                   (overwrittenKey (str ''cloudwatchId''), JStr (str ''e1''))])"
    unfolding create_hello by (simp add: enrichStep_def assignOwn_def overwrittenKey_def str_def)
  have t: "trim (str ''{'' @ quoted (str ''timestamp'') @ str '':'' @ quoted (str ''soon'') @ str ''}'') =
           str ''{'' @ quoted (str ''timestamp'') @ str '':'' @ quoted (str ''soon'') @ str ''}''"
    by (simp add: string_evals quoted_def)
  have p: "parseLambdaLogLine isoDateParse (str ''grp'')
        (str ''{'' @ quoted (str ''timestamp'') @ str '':'' @ quoted (str ''soon'') @ str ''}'') =
      Inr (JObj [(str ''timestamp'', JStr (str ''soon''))])"
    by (simp add: parser_evals string_evals quoted_def simpleEscape_def)
  have 2: "createStructuredLog isoDateParse (str ''grp'')
      (exampleEvent (str ''{'' @ quoted (str ''timestamp'') @ str '':'' @ quoted (str ''soon'') @ str ''}'')) [] =
   Inr (Obj Plain [(str ''timestamp'', JStr (str ''soon'')),
                   (str ''@timestamp'', JStr (str ''soon'')),
                   (str ''cloudwatchId'', JStr (str ''e1'')),
                   (str ''cloudwatchLogGroup'', JStr (str ''grp''))])"
    unfolding createStructuredLog_def exampleEvent_def
    by (simp add: t p bindE_def readProp_def assignOwn_def str_inject) (simp add: str_def)
  show ?thesis using 1 2 by simp
qed

theorem C7_witness:
  "createStructuredLog isoDateParse (str ''grp'') (exampleEvent (str ''hello''))
      [(str ''env'', JStr (str ''prod''))] =
   Inr (Obj Plain [(str ''message'', JStr (str ''hello'')),
                   (str ''@timestamp'', JStr (str ''2023-01-01T00:00:00.000Z'')),
                   (str ''cloudwatchId'', JStr (str ''e1'')),
                   (str ''cloudwatchLogGroup'', JStr (str ''grp'')),
                   (str ''env'', JStr (str ''prod''))]) \<and>
   str ''env'' \<notin> {str ''@timestamp'', str ''cloudwatchId'', str ''cloudwatchLogGroup'', str ''message''} \<and>
   \<not> isRequestLogEntry (trim (str ''hello'')) \<and>
   parseNodeLogFormat isoDateParse (str ''grp'') (trim (str ''hello'')) = None \<and>
   JSON_parse (trim (trim (str ''hello''))) = None \<and>
   getProp (Obj Plain [(str ''message'', JStr (str ''hello'')),
                   (str ''@timestamp'', JStr (str ''2023-01-01T00:00:00.000Z'')),
                   (str ''cloudwatchId'', JStr (str ''e1'')),
                   (str ''cloudwatchLogGroup'', JStr (str ''grp'')),
                   (str ''env'', JStr (str ''prod''))]) (str ''message'') =
     Some (JStr (trim (trim (str ''hello''))))"
proof -
  have 1: "createStructuredLog isoDateParse (str ''grp'') (exampleEvent (str ''hello''))
      [(str ''env'', JStr (str ''prod''))] =
   Inr (Obj Plain [(str ''message'', JStr (str ''hello'')),
                   (str ''@timestamp'', JStr (str ''2023-01-01T00:00:00.000Z'')),
                   (str ''cloudwatchId'', JStr (str ''e1'')),
                   (str ''cloudwatchLogGroup'', JStr (str ''grp'')),
                   (str ''env'', JStr (str ''prod''))])"
    unfolding create_hello by (simp add: enrichStep_def assignOwn_def overwrittenKey_def str_def)
  have 2: "\<forall>k \<in> fst ` set [(str ''env'', JStr (str ''prod''))].
       k \<notin> {str ''@timestamp'', str ''cloudwatchId'', str ''cloudwatchLogGroup'', str ''message''}"
    by (simp add: str_def)
  have 3: "\<not> isRequestLogEntry (trim (str ''hello''))"
    by (simp add: isRequestLogEntry_def startsWith_def string_evals)
  have 4: "parseNodeLogFormat isoDateParse (str ''grp'') (trim (str ''hello'')) = None"
    by (simp add: parseNodeLogFormat_def string_evals)
  have 5: "JSON_parse (trim (trim (str ''hello''))) = None"
    by (simp add: JSON_parse_def string_evals)
  have m: "message (exampleEvent (str ''hello'')) = str ''hello''"
    by (simp add: exampleEvent_def)
  from C7_reserved_fields [OF 1 2] 3 4 5 m show ?thesis
    using 1 2 by simp
qed

section \<open>The fields of a REPORT line\<close>









section \<open>Tab-delimited lines\<close>

lemma iso_example_date: "isoDateParse (str ''2023-01-01T00:00:00Z'') = Some 1672531200000"
  by (simp add: isoDateParse_def isoDatePart_def isoTimePart_def isoZone_def twoDigits_def
      isDigit_def daysInMonth_def daysFromCivil_def str_def)

lemma parseNodeLogFormat_recognised:
  assumes "splitOn 9 line = dateToken # requestId # level # m # ms" and "dateParse dateToken \<noteq> None"
  shows "parseNodeLogFormat dateParse logGroup line =
     Some (JObj (AList.update (str ''level'') (JStr level)
       (AList.update (str ''lambdaRequestId'') (JStr requestId)
         (ownEnumerable
           (case JSON_parse (trim (joinWith 9 (m # ms))) of
              Some v \<Rightarrow> v
            | None \<Rightarrow> JObj [(str ''message'', JStr (trim (joinWith 9 (m # ms))))])))))"
  using assms by (simp add: parseNodeLogFormat_def parseMessageJson_def Let_def)

lemma parseLambdaLogLine_node:
  assumes "\<not> isRequestLogEntry line" and "parseNodeLogFormat dateParse logGroup line = Some rec"
  shows "parseLambdaLogLine dateParse logGroup line = Inr rec"
  using assms by (simp add: parseLambdaLogLine_def lambdaRequestLogData_def)

lemma tabLine_facts:
  "splitOn 9 tabLine = [str ''2023-01-01T00:00:00Z'', str ''req-1'', str ''INFO'',
                         str ''{'' @ quoted (str ''a'') @ str '':1}'']"
  "\<not> isRequestLogEntry tabLine"
  "JSON_parse (trim (joinWith 9 [str ''{'' @ quoted (str ''a'') @ str '':1}''])) =
     Some (JObj [(str ''a'', JNum (Finite 1))])"
  by (simp_all add: tabLine_def str_def quoted_def isRequestLogEntry_def startsWith_def
      JSON_parse_def trim_def isWhiteSpace_def isJsonSpace_def isDigit_def lexNumber_def
      readExponent_def scale10_def)

lemma tabLine_parsed:
  assumes "dateParse (str ''2023-01-01T00:00:00Z'') \<noteq> None"
  shows "parseLambdaLogLine dateParse logGroup tabLine =
     Inr (JObj [(str ''a'', JNum (Finite 1)), (str ''lambdaRequestId'', JStr (str ''req-1'')),
                (str ''level'', JStr (str ''INFO''))])"
proof -
  have "parseNodeLogFormat dateParse logGroup tabLine =
     Some (JObj [(str ''a'', JNum (Finite 1)), (str ''lambdaRequestId'', JStr (str ''req-1'')),
                (str ''level'', JStr (str ''INFO''))])"
    unfolding parseNodeLogFormat_recognised [of tabLine "str ''2023-01-01T00:00:00Z''" "str ''req-1''"
        "str ''INFO''" "str ''{'' @ quoted (str ''a'') @ str '':1}''" "[]" dateParse logGroup,
        OF tabLine_facts(1) assms] tabLine_facts(3)
    by (simp add: str_def)
  then show ?thesis
    using parseLambdaLogLine_node [OF tabLine_facts(2)] by simp
qed

text \<open>
  C6. A line that splits at the tabs into at least four segments, the first of which
  \<open>Date.parse\<close> accepts, is recognised by the tab-delimited parser, whatever \<open>Date.parse\<close>
  is: the message part, joined again with tabs, is parsed as JSON if possible and wrapped as
  a \<open>message\<close> record otherwise, and the result is merged with \<open>lambdaRequestId\<close> and \<open>level\<close>
  from the second and third segment. In the parser chain the lifecycle parser comes first,
  so the result is that of \<open>parseLambdaLogLine\<close> when the line is not a lifecycle line. On the
  line of the specification the record is \<open>a = 1\<close>, \<open>lambdaRequestId = req-1\<close>,
  \<open>level = INFO\<close>.
\<close>

theorem C6_tab_delimited_line:
  "(splitOn 9 line = dateToken # requestId # level # m # ms \<and> dateParse dateToken \<noteq> None \<longrightarrow>
      parseNodeLogFormat dateParse logGroup line =
        Some (JObj (AList.update (str ''level'') (JStr level)
          (AList.update (str ''lambdaRequestId'') (JStr requestId)
            (ownEnumerable
              (case JSON_parse (trim (joinWith 9 (m # ms))) of
                 Some v \<Rightarrow> v
               | None \<Rightarrow> JObj [(str ''message'', JStr (trim (joinWith 9 (m # ms))))]))))) \<and>
      (\<not> isRequestLogEntry line \<longrightarrow>
         parseLambdaLogLine dateParse logGroup line =
           Inr (JObj (AList.update (str ''level'') (JStr level)
             (AList.update (str ''lambdaRequestId'') (JStr requestId)
               (ownEnumerable
                 (case JSON_parse (trim (joinWith 9 (m # ms))) of
                    Some v \<Rightarrow> v
                  | None \<Rightarrow> JObj [(str ''message'', JStr (trim (joinWith 9 (m # ms))))]))))))) \<and>
   (dateParse (str ''2023-01-01T00:00:00Z'') \<noteq> None \<longrightarrow>
      parseLambdaLogLine dateParse logGroup tabLine =
        Inr (JObj [(str ''a'', JNum (Finite 1)), (str ''lambdaRequestId'', JStr (str ''req-1'')),
                   (str ''level'', JStr (str ''INFO''))]))"
proof (intro conjI impI)
  assume a: "splitOn 9 line = dateToken # requestId # level # m # ms \<and> dateParse dateToken \<noteq> None"
  then show n: "parseNodeLogFormat dateParse logGroup line =
        Some (JObj (AList.update (str ''level'') (JStr level)
          (AList.update (str ''lambdaRequestId'') (JStr requestId)
            (ownEnumerable
              (case JSON_parse (trim (joinWith 9 (m # ms))) of
                 Some v \<Rightarrow> v
               | None \<Rightarrow> JObj [(str ''message'', JStr (trim (joinWith 9 (m # ms))))])))))"
    using parseNodeLogFormat_recognised [of line dateToken requestId level m ms dateParse logGroup]
    by blast
  assume "\<not> isRequestLogEntry line"
  then show "parseLambdaLogLine dateParse logGroup line =
           Inr (JObj (AList.update (str ''level'') (JStr level)
             (AList.update (str ''lambdaRequestId'') (JStr requestId)
               (ownEnumerable
                 (case JSON_parse (trim (joinWith 9 (m # ms))) of
                    Some v \<Rightarrow> v
                  | None \<Rightarrow> JObj [(str ''message'', JStr (trim (joinWith 9 (m # ms))))])))))"
    using parseLambdaLogLine_node n by blast
next
  assume "dateParse (str ''2023-01-01T00:00:00Z'') \<noteq> None"
  then show "parseLambdaLogLine dateParse logGroup tabLine =
        Inr (JObj [(str ''a'', JNum (Finite 1)), (str ''lambdaRequestId'', JStr (str ''req-1'')),
                   (str ''level'', JStr (str ''INFO''))])"
    by (rule tabLine_parsed)
qed

text \<open>The statement at the line of the specification, with the ISO date parser.\<close>

theorem C6_witness:
  "splitOn 9 tabLine = [str ''2023-01-01T00:00:00Z'', str ''req-1'', str ''INFO'',
                         str ''{'' @ quoted (str ''a'') @ str '':1}''] \<and>
   isoDateParse (str ''2023-01-01T00:00:00Z'') \<noteq> None \<and>
   \<not> isRequestLogEntry tabLine \<and>
   parseNodeLogFormat isoDateParse (str ''grp'') tabLine =
     Some (JObj [(str ''a'', JNum (Finite 1)), (str ''lambdaRequestId'', JStr (str ''req-1'')),
                 (str ''level'', JStr (str ''INFO''))]) \<and>
   parseLambdaLogLine isoDateParse (str ''grp'') tabLine =
     Inr (JObj [(str ''a'', JNum (Finite 1)), (str ''lambdaRequestId'', JStr (str ''req-1'')),
                (str ''level'', JStr (str ''INFO''))])"
proof -
  have d: "isoDateParse (str ''2023-01-01T00:00:00Z'') \<noteq> None"
    by (simp add: iso_example_date)
  have u: "AList.update (str ''level'') (JStr (str ''INFO''))
          (AList.update (str ''lambdaRequestId'') (JStr (str ''req-1''))
            (ownEnumerable (JObj [(str ''a'', JNum (Finite 1))]))) =
      [(str ''a'', JNum (Finite 1)), (str ''lambdaRequestId'', JStr (str ''req-1'')),
                (str ''level'', JStr (str ''INFO''))]"
    by (simp add: str_def)
  from C6_tab_delimited_line [of tabLine "str ''2023-01-01T00:00:00Z''" "str ''req-1''" "str ''INFO''"
      "str ''{'' @ quoted (str ''a'') @ str '':1}''" "[]" isoDateParse "str ''grp''"]
  show ?thesis
    using tabLine_facts d u by simp
qed

text \<open>
  C9. When the message part of a tab-delimited line parses as a JSON object, the output of
  the tab-delimited parser has \<open>lambdaRequestId\<close> and \<open>level\<close> from the second and third
  segment, also when the object has fields of these names, and every other field of the
  object as it is.
\<close>

theorem C9_segments_override_message_fields:
  "splitOn 9 line = dateToken # requestId # level # m # ms \<and> dateParse dateToken \<noteq> None \<and>
   JSON_parse (trim (joinWith 9 (m # ms))) = Some (JObj parsedFields) \<longrightarrow>
   (\<exists>out. parseNodeLogFormat dateParse logGroup line = Some (JObj out) \<and>
          map_of out (str ''lambdaRequestId'') = Some (JStr requestId) \<and>
          map_of out (str ''level'') = Some (JStr level) \<and>
          (\<forall>k. k \<noteq> str ''lambdaRequestId'' \<and> k \<noteq> str ''level'' \<longrightarrow>
               map_of out k = map_of parsedFields k))"
proof (intro impI)
  assume a: "splitOn 9 line = dateToken # requestId # level # m # ms \<and> dateParse dateToken \<noteq> None \<and>
   JSON_parse (trim (joinWith 9 (m # ms))) = Some (JObj parsedFields)"
  have ne: "str ''lambdaRequestId'' \<noteq> str ''level''"
    by (simp add: str_def)
  have "parseNodeLogFormat dateParse logGroup line =
      Some (JObj (AList.update (str ''level'') (JStr level)
          (AList.update (str ''lambdaRequestId'') (JStr requestId) parsedFields)))"
    using a parseNodeLogFormat_recognised [of line dateToken requestId level m ms dateParse logGroup]
    by simp
  then show "\<exists>out. parseNodeLogFormat dateParse logGroup line = Some (JObj out) \<and>
          map_of out (str ''lambdaRequestId'') = Some (JStr requestId) \<and>
          map_of out (str ''level'') = Some (JStr level) \<and>
          (\<forall>k. k \<noteq> str ''lambdaRequestId'' \<and> k \<noteq> str ''level'' \<longrightarrow>
               map_of out k = map_of parsedFields k)"
    using ne by (simp add: update_conv')
qed

text \<open>
  The statement at a message with \<open>level = DEBUG\<close> and \<open>lambdaRequestId = other\<close>: the output
  has \<open>level = INFO\<close> and \<open>lambdaRequestId = req-1\<close>.
\<close>

theorem C9_witness:
  "splitOn 9 overrideLine = [str ''2023-01-01T00:00:00Z'', str ''req-1'', str ''INFO'',
     str ''{'' @ quoted (str ''level'') @ str '':'' @ quoted (str ''DEBUG'') @ str '','' @
       quoted (str ''lambdaRequestId'') @ str '':'' @ quoted (str ''other'') @ str '','' @
       quoted (str ''a'') @ str '':1}''] \<and>
   isoDateParse (str ''2023-01-01T00:00:00Z'') \<noteq> None \<and>
   JSON_parse (trim (joinWith 9 [str ''{'' @ quoted (str ''level'') @ str '':'' @
       quoted (str ''DEBUG'') @ str '','' @ quoted (str ''lambdaRequestId'') @ str '':'' @
       quoted (str ''other'') @ str '','' @ quoted (str ''a'') @ str '':1}''])) =
     Some (JObj [(str ''level'', JStr (str ''DEBUG'')),
                 (str ''lambdaRequestId'', JStr (str ''other'')),
                 (str ''a'', JNum (Finite 1))]) \<and>
   parseNodeLogFormat isoDateParse (str ''grp'') overrideLine =
     Some (JObj [(str ''level'', JStr (str ''INFO'')),
                 (str ''lambdaRequestId'', JStr (str ''req-1'')),
                 (str ''a'', JNum (Finite 1))])"
proof -
  have 1: "splitOn 9 overrideLine = [str ''2023-01-01T00:00:00Z'', str ''req-1'', str ''INFO'',
     str ''{'' @ quoted (str ''level'') @ str '':'' @ quoted (str ''DEBUG'') @ str '','' @
       quoted (str ''lambdaRequestId'') @ str '':'' @ quoted (str ''other'') @ str '','' @
       quoted (str ''a'') @ str '':1}'']"
    by (simp add: overrideLine_def str_def quoted_def)
  have 2: "isoDateParse (str ''2023-01-01T00:00:00Z'') \<noteq> None"
    by (simp add: iso_example_date)
  have 3: "JSON_parse (trim (joinWith 9 [str ''{'' @ quoted (str ''level'') @ str '':'' @
       quoted (str ''DEBUG'') @ str '','' @ quoted (str ''lambdaRequestId'') @ str '':'' @
       quoted (str ''other'') @ str '','' @ quoted (str ''a'') @ str '':1}''])) =
     Some (JObj [(str ''level'', JStr (str ''DEBUG'')),
                 (str ''lambdaRequestId'', JStr (str ''other'')),
                 (str ''a'', JNum (Finite 1))])"
    by (simp add: str_def quoted_def JSON_parse_def trim_def isWhiteSpace_def isJsonSpace_def
        isDigit_def lexNumber_def readExponent_def scale10_def)
  have 4: "parseNodeLogFormat isoDateParse (str ''grp'') overrideLine =
     Some (JObj [(str ''level'', JStr (str ''INFO'')),
                 (str ''lambdaRequestId'', JStr (str ''req-1'')),
                 (str ''a'', JNum (Finite 1))])"
    unfolding parseNodeLogFormat_recognised [of overrideLine "str ''2023-01-01T00:00:00Z''"
        "str ''req-1''" "str ''INFO''" _ "[]" isoDateParse "str ''grp''", OF 1 2] 3
    by (simp add: str_def)
  from C9_segments_override_message_fields [of overrideLine "str ''2023-01-01T00:00:00Z''"
        "str ''req-1''" "str ''INFO''" _ "[]" isoDateParse
        "[(str ''level'', JStr (str ''DEBUG'')), (str ''lambdaRequestId'', JStr (str ''other'')),
          (str ''a'', JNum (Finite 1))]" "str ''grp''"]
  show ?thesis using 1 2 3 4 by simp
qed

section \<open>Enrichment of a record\<close>

lemma enrichStep_plain: "enrichStep (Obj Plain ps) entry = Inr (Obj Plain (stepPlain ps entry))"
  by (simp add: enrichStep_def stepPlain_def split: option.splits)

lemma enrich_plain: "enrich (Obj Plain ps) es = Inr (Obj Plain (foldl stepPlain ps es))"
  by (induction es arbitrary: ps) (simp_all add: enrichStep_plain)

lemma overwrittenKey_neq: "overwrittenKey k \<noteq> k"
  by (simp add: overwrittenKey_def str_def)

lemma overwrittenKey_not_proto: "overwrittenKey k \<noteq> str ''__proto__''"
  by (simp add: overwrittenKey_def str_def)

lemma map_of_stepPlain:
  "map_of (stepPlain ps (k, v)) j =
     (if j = k then (if k = str ''__proto__'' \<and> map_of ps k = None then None else Some v)
      else if j = overwrittenKey k \<and> truthy (map_of ps k) then map_of ps k
      else map_of ps j)"
  using overwrittenKey_neq [of k] overwrittenKey_not_proto [of k]
  by (auto simp: stepPlain_def assignOwn_def update_conv' split: option.splits)

lemma foldl_stepPlain_other:
  "j \<notin> fst ` set es \<Longrightarrow> j \<notin> overwrittenKey ` fst ` set es \<Longrightarrow>
   map_of (foldl stepPlain ps es) j = map_of ps j"
proof (induction es arbitrary: ps)
  case Nil
  then show ?case by simp
next
  case (Cons e es)
  obtain k v where e: "e = (k, v)" by (cases e)
  have "map_of (foldl stepPlain (stepPlain ps (k, v)) es) j = map_of (stepPlain ps (k, v)) j"
    using Cons by simp
  also have "\<dots> = map_of ps j"
    using Cons.prems e by (simp add: map_of_stepPlain)
  finally show ?case by (simp add: e)
qed

lemma enrich_relocates:
  assumes "distinct (map fst es)" and "(k, v) \<in> set es"
    and "map_of ps k = Some old" and "truthy (Some old)"
    and "overwrittenKey k \<notin> fst ` set es"
    and "\<forall>k' \<in> fst ` set es. overwrittenKey k' \<noteq> k"
  shows "map_of (foldl stepPlain ps es) (overwrittenKey k) = Some old \<and>
         map_of (foldl stepPlain ps es) k = Some v"
  using assms
proof (induction es arbitrary: ps)
  case Nil
  then show ?case by simp
next
  case (Cons e es)
  obtain k' v' where e: "e = (k', v')" by (cases e)
  show ?case
  proof (cases "k' = k")
    case True
    have notin: "k \<notin> fst ` set es"
      using Cons.prems(1) e True by simp
    have v: "v' = v"
      using Cons.prems(2) e True notin by force
    have a1: "overwrittenKey k \<notin> fst ` set es"
      using Cons.prems(5) by simp
    have a2: "k \<notin> overwrittenKey ` fst ` set es"
      using Cons.prems(6) by fastforce
    have "inj overwrittenKey"
      by (simp add: inj_def overwrittenKey_inject)
    then have a3: "overwrittenKey k \<notin> overwrittenKey ` fst ` set es"
      using notin by (simp add: inj_image_mem_iff)
    note a = a1 a2 a3
    have "map_of (foldl stepPlain (stepPlain ps (k, v)) es) (overwrittenKey k) =
            map_of (stepPlain ps (k, v)) (overwrittenKey k)"
      using a by (simp add: foldl_stepPlain_other)
    moreover have "map_of (foldl stepPlain (stepPlain ps (k, v)) es) k = map_of (stepPlain ps (k, v)) k"
      using a notin by (simp add: foldl_stepPlain_other)
    ultimately show ?thesis
      using Cons.prems(3,4) overwrittenKey_neq [of k] by (simp add: e True v map_of_stepPlain)
  next
    case False
    with Cons.prems e have in_rest: "(k, v) \<in> set es" by auto
    have ne: "k \<noteq> overwrittenKey k'" using Cons.prems(6) e by auto
    have keep: "map_of (stepPlain ps (k', v')) k = Some old"
      using False ne Cons.prems(3) by (simp add: map_of_stepPlain)
    have "map_of (foldl stepPlain (stepPlain ps (k', v')) es) (overwrittenKey k) = Some old \<and>
          map_of (foldl stepPlain (stepPlain ps (k', v')) es) k = Some v"
      using Cons.IH [OF _ in_rest keep] Cons.prems by auto
    then show ?thesis by (simp add: e)
  qed
qed

text \<open>
  C2, as the code has it. Let the supplemental keys be distinct, and let \<open>k\<close> be a
  supplemental key at which the record holds a truthy value. If \<open>overwrittenFields.k\<close> is not
  itself a supplemental key and \<open>k\<close> is not \<open>overwrittenFields.k'\<close> for a supplemental key
  \<open>k'\<close>, then the enriched record has the old value at \<open>overwrittenFields.k\<close> and the
  supplemental value at \<open>k\<close>.
\<close>

theorem C2_truthy_value_is_relocated:
  assumes "distinct (map fst extraFields)" and "(k, v) \<in> set extraFields"
    and "map_of recordFields k = Some old" and "truthy (Some old)"
    and "overwrittenKey k \<notin> fst ` set extraFields"
    and "\<forall>k' \<in> fst ` set extraFields. overwrittenKey k' \<noteq> k"
  shows "\<exists>r. enrich (Obj Plain recordFields) extraFields = Inr r \<and>
             getProp r (overwrittenKey k) = Some old \<and> getProp r k = Some v"
  using enrich_relocates [OF assms] by (simp add: enrich_plain)

text \<open>
  The claim as stated fails on a value that is present but falsy: the record \<open>env = false\<close>
  enriched with \<open>env = staging\<close> keeps no trace of \<open>false\<close>. It also fails when a supplemental
  key is the bookkeeping name of another: with the supplemental fields \<open>env = staging\<close> and
  \<open>overwrittenFields.env = x\<close>, the old value \<open>prod\<close> of \<open>env\<close> is not at
  \<open>overwrittenFields.env\<close> in the end.
\<close>

theorem C2_counterexample:
  "enrich (Obj Plain [(str ''env'', JBool False)]) [(str ''env'', JStr (str ''staging''))] =
     Inr (Obj Plain [(str ''env'', JStr (str ''staging''))]) \<and>
   enrich (Obj Plain [(str ''env'', JStr (str ''prod''))])
       [(str ''env'', JStr (str ''staging'')), (overwrittenKey (str ''env''), JStr (str ''x''))] =
     Inr (Obj Plain [(str ''env'', JStr (str ''staging'')),
                     (overwrittenKey (str ''env''), JStr (str ''x'')),
                     (overwrittenKey (overwrittenKey (str ''env'')), JStr (str ''prod''))])"
  by (simp add: enrichStep_def assignOwn_def overwrittenKey_def str_def)

text \<open>The example of the specification: \<open>env = prod\<close> enriched with \<open>env = staging\<close>.\<close>

theorem C2_witness:
  "enrich (Obj Plain [(str ''env'', JStr (str ''prod''))]) [(str ''env'', JStr (str ''staging''))] =
     Inr (Obj Plain [(str ''env'', JStr (str ''staging'')),
                     (overwrittenKey (str ''env''), JStr (str ''prod''))]) \<and>
   getProp (Obj Plain [(str ''env'', JStr (str ''staging'')),
                     (overwrittenKey (str ''env''), JStr (str ''prod''))]) (overwrittenKey (str ''env''))
     = Some (JStr (str ''prod'')) \<and>
   getProp (Obj Plain [(str ''env'', JStr (str ''staging'')),
                     (overwrittenKey (str ''env''), JStr (str ''prod''))]) (str ''env'')
     = Some (JStr (str ''staging''))"
proof -
  have 1: "enrich (Obj Plain [(str ''env'', JStr (str ''prod''))]) [(str ''env'', JStr (str ''staging''))] =
     Inr (Obj Plain [(str ''env'', JStr (str ''staging'')),
                     (overwrittenKey (str ''env''), JStr (str ''prod''))])"
    by (simp add: enrichStep_def assignOwn_def overwrittenKey_def str_def)
  have h: "distinct (map fst [(str ''env'', JStr (str ''staging''))])"
    "(str ''env'', JStr (str ''staging'')) \<in> set [(str ''env'', JStr (str ''staging''))]"
    "map_of [(str ''env'', JStr (str ''prod''))] (str ''env'') = Some (JStr (str ''prod''))"
    "truthy (Some (JStr (str ''prod'')))"
    "overwrittenKey (str ''env'') \<notin> fst ` set [(str ''env'', JStr (str ''staging''))]"
    "\<forall>k' \<in> fst ` set [(str ''env'', JStr (str ''staging''))]. overwrittenKey k' \<noteq> str ''env''"
    by (simp_all add: overwrittenKey_def str_def)
  from C2_truthy_value_is_relocated [OF h] show ?thesis
    unfolding 1 by simp
qed

text \<open>
  A value that is present but falsy is overwritten without bookkeeping, in general: the
  entry \<open>overwrittenFields.k\<close> reads after the enrichment what it read before.
\<close>

lemma falsy_value_overwritten:
  assumes "distinct (map fst es)" and "(k, v) \<in> set es"
    and "map_of ps k = Some old" and "\<not> truthy (Some old)"
    and "overwrittenKey k \<notin> fst ` set es"
    and "\<forall>k' \<in> fst ` set es. overwrittenKey k' \<noteq> k"
  shows "map_of (foldl stepPlain ps es) (overwrittenKey k) = map_of ps (overwrittenKey k) \<and>
         map_of (foldl stepPlain ps es) k = Some v"
  using assms
proof (induction es arbitrary: ps)
  case Nil
  then show ?case by simp
next
  case (Cons e es)
  obtain k' v' where e: "e = (k', v')" by (cases e)
  show ?case
  proof (cases "k' = k")
    case True
    have notin: "k \<notin> fst ` set es"
      using Cons.prems(1) e True by simp
    have v: "v' = v"
      using Cons.prems(2) e True notin by force
    have a1: "overwrittenKey k \<notin> fst ` set es"
      using Cons.prems(5) by simp
    have a2: "k \<notin> overwrittenKey ` fst ` set es"
      using Cons.prems(6) by fastforce
    have "inj overwrittenKey"
      by (simp add: inj_def overwrittenKey_inject)
    then have a3: "overwrittenKey k \<notin> overwrittenKey ` fst ` set es"
      using notin by (simp add: inj_image_mem_iff)
    note a = a1 a2 a3
    have "map_of (foldl stepPlain (stepPlain ps (k, v)) es) (overwrittenKey k) =
            map_of (stepPlain ps (k, v)) (overwrittenKey k)"
      using a by (simp add: foldl_stepPlain_other)
    moreover have "map_of (foldl stepPlain (stepPlain ps (k, v)) es) k = map_of (stepPlain ps (k, v)) k"
      using a notin by (simp add: foldl_stepPlain_other)
    ultimately show ?thesis
      using Cons.prems(3,4) overwrittenKey_neq [of k] by (simp add: e True v map_of_stepPlain)
  next
    case False
    with Cons.prems e have in_rest: "(k, v) \<in> set es" by auto
    have ne: "k \<noteq> overwrittenKey k'" using Cons.prems(6) e by auto
    have ne2: "overwrittenKey k \<noteq> k'" using Cons.prems(5) e by auto
    have ne3: "overwrittenKey k \<noteq> overwrittenKey k'" using False by (simp add: overwrittenKey_inject)
    have keep: "map_of (stepPlain ps (k', v')) k = Some old"
      using False ne Cons.prems(3) by (simp add: map_of_stepPlain)
    have keep2: "map_of (stepPlain ps (k', v')) (overwrittenKey k) = map_of ps (overwrittenKey k)"
      using ne2 ne3 by (simp add: map_of_stepPlain)
    have "map_of (foldl stepPlain (stepPlain ps (k', v')) es) (overwrittenKey k) =
            map_of (stepPlain ps (k', v')) (overwrittenKey k) \<and>
          map_of (foldl stepPlain (stepPlain ps (k', v')) es) k = Some v"
      using Cons.IH [OF _ in_rest keep] Cons.prems by auto
    then show ?thesis by (simp add: e keep2)
  qed
qed

lemma enrich_overwrites_falsy:
  assumes "distinct (map fst extraFields)" and "(k, v) \<in> set extraFields"
    and "map_of recordFields k = Some old" and "\<not> truthy (Some old)"
    and "overwrittenKey k \<notin> fst ` set extraFields"
    and "\<forall>k' \<in> fst ` set extraFields. overwrittenKey k' \<noteq> k"
    and "str ''__proto__'' \<notin> fst ` set extraFields"
  shows "\<exists>r. enrich (Obj Plain recordFields) extraFields = Inr r \<and>
             getProp r (overwrittenKey k) = getProp (Obj Plain recordFields) (overwrittenKey k) \<and>
             getProp r k = Some v"
  using falsy_value_overwritten [OF assms(1-6)] by (simp add: enrich_plain split: option.splits)

lemma map_of_stepPlain_key:
  "map_of (stepPlain ps (k, v)) k = (if setterIgnored ps k then None else Some v)"
  by (simp add: map_of_stepPlain setterIgnored_def)

lemma setterIgnored_cong: "map_of qs j = map_of ps j \<Longrightarrow> setterIgnored qs j = setterIgnored ps j"
  by (simp add: setterIgnored_def)

lemma drop_overwrittenKey: "drop 18 (overwrittenKey k) = k"
  by (simp add: overwrittenKey_def str_def)

lemma foldl_stepPlain_lookup:
  assumes "distinct (map fst es)" and "\<forall>k \<in> fst ` set es. overwrittenKey k \<notin> fst ` set es"
  shows "map_of (foldl stepPlain ps es) j = enrichedLookup ps es j"
  using assms
proof (induction es arbitrary: ps)
  case Nil
  then show ?case by (simp add: enrichedLookup_def)
next
  case (Cons e es)
  obtain k v where e: "e = (k, v)" by (cases e)
  let ?ps1 = "stepPlain ps (k, v)"
  have d: "distinct (map fst es)" and kn: "k \<notin> fst ` set es"
    using Cons.prems(1) e by auto
  have ni: "\<forall>k' \<in> fst ` set es. overwrittenKey k' \<notin> fst ` set es"
    using Cons.prems(2) by auto
  have ovk: "overwrittenKey k \<notin> fst ` set es" "overwrittenKey k \<noteq> k"
    using Cons.prems(2) e overwrittenKey_neq by auto
  have ovr: "\<And>k'. k' \<in> fst ` set es \<Longrightarrow> overwrittenKey k' \<noteq> k \<and> overwrittenKey k' \<noteq> overwrittenKey k \<and> k' \<noteq> k"
    using Cons.prems(2) e kn by (auto simp: overwrittenKey_inject)
  have away: "\<And>k'. k' \<in> fst ` set es \<Longrightarrow> k' \<noteq> k \<and> k' \<noteq> overwrittenKey k"
    using kn ovk by blast
  have same: "\<And>k'. k' \<in> fst ` set es \<Longrightarrow> map_of ?ps1 k' = map_of ps k'"
    using away by (simp add: map_of_stepPlain)
  have IH: "map_of (foldl stepPlain ?ps1 es) j = enrichedLookup ?ps1 es j"
    using Cons.IH [OF d ni] .
  have "enrichedLookup ?ps1 es j = enrichedLookup ps ((k, v) # es) j"
  proof (cases "j \<in> fst ` set es")
    case True
    then have jk: "j \<noteq> k" using kn by auto
    have l: "enrichedLookup ?ps1 es j = (if setterIgnored ps j then None else map_of es j)"
      unfolding enrichedLookup_def setterIgnored_cong [OF same [OF True]] using True by simp
    have r: "enrichedLookup ps ((k, v) # es) j = (if setterIgnored ps j then None else map_of es j)"
      unfolding enrichedLookup_def using True jk by simp
    show ?thesis unfolding l r ..
  next
    case False
    note jn = False
    show ?thesis
    proof (cases "j = k")
      case True
      have n: "\<not> (\<exists>k' \<in> fst ` set es. j = overwrittenKey k' \<and> truthy (map_of ?ps1 k'))"
        using True ovr by blast
      have "enrichedLookup ?ps1 es j = map_of ?ps1 j"
        unfolding enrichedLookup_def by (simp only: jn n if_False)
      then have l: "enrichedLookup ?ps1 es j = map_of ?ps1 k"
        using True by simp
      have r: "enrichedLookup ps ((k, v) # es) j = (if setterIgnored ps k then None else Some v)"
        unfolding enrichedLookup_def using True by simp
      show ?thesis unfolding l r by (rule map_of_stepPlain_key)
    next
      case False
      note jk = False
      show ?thesis
      proof (cases "\<exists>k' \<in> fst ` set es. j = overwrittenKey k'")
        case True
        then obtain k' where k': "k' \<in> fst ` set es" "j = overwrittenKey k'" by blast
        have u: "\<And>x. x \<in> fst ` set es \<Longrightarrow> j = overwrittenKey x \<Longrightarrow> x = k'"
          using k' by (simp add: overwrittenKey_inject)
        have jo: "j \<noteq> overwrittenKey k" using k' ovr by auto
        have r0: "fst ` set ((k, v) # es) = insert k (fst ` set es)"
          by simp
        have l: "(\<exists>x \<in> fst ` set es. j = overwrittenKey x \<and> truthy (map_of ?ps1 x)) = truthy (map_of ps k')"
        proof
          assume "\<exists>x \<in> fst ` set es. j = overwrittenKey x \<and> truthy (map_of ?ps1 x)"
          then obtain x where x: "x \<in> fst ` set es" "j = overwrittenKey x" "truthy (map_of ?ps1 x)"
            by blast
          have "x = k'" using u [OF x(1,2)] .
          then show "truthy (map_of ps k')" using x(3) same [OF k'(1)] by simp
        next
          assume "truthy (map_of ps k')"
          then have "truthy (map_of ?ps1 k')" using same [OF k'(1)] by simp
          then show "\<exists>x \<in> fst ` set es. j = overwrittenKey x \<and> truthy (map_of ?ps1 x)"
            using k' by blast
        qed
        have r: "(\<exists>x \<in> fst ` set ((k, v) # es). j = overwrittenKey x \<and> truthy (map_of ps x)) = truthy (map_of ps k')"
        proof
          assume "\<exists>x \<in> fst ` set ((k, v) # es). j = overwrittenKey x \<and> truthy (map_of ps x)"
          then obtain x where x: "x \<in> insert k (fst ` set es)" "j = overwrittenKey x" "truthy (map_of ps x)"
            unfolding r0 by blast
          have "x \<noteq> k" using x(2) jo by blast
          then have "x \<in> fst ` set es" using x(1) by blast
          then have "x = k'" using u x(2) by blast
          then show "truthy (map_of ps k')" using x(3) by simp
        next
          assume "truthy (map_of ps k')"
          then show "\<exists>x \<in> fst ` set ((k, v) # es). j = overwrittenKey x \<and> truthy (map_of ps x)"
            unfolding r0 using k' by blast
        qed
        have m: "map_of ?ps1 (drop 18 j) = map_of ps k'" "map_of ps (drop 18 j) = map_of ps k'"
          using k' same by (simp_all add: drop_overwrittenKey)
        have p: "map_of ?ps1 j = map_of ps j"
          using jk jo by (simp add: map_of_stepPlain)
        have jn': "j \<notin> fst ` set ((k, v) # es)" using jn jk by simp
        show ?thesis
          unfolding enrichedLookup_def l r m p by (simp only: jn jn' if_False)
      next
        case False
        have l: "\<not> (\<exists>x \<in> fst ` set es. j = overwrittenKey x \<and> truthy (map_of ?ps1 x))"
          using False by blast
        have r0: "fst ` set ((k, v) # es) = insert k (fst ` set es)"
          by simp
        have r: "(\<exists>x \<in> fst ` set ((k, v) # es). j = overwrittenKey x \<and> truthy (map_of ps x)) =
                 (j = overwrittenKey k \<and> truthy (map_of ps k))"
        proof
          assume "\<exists>x \<in> fst ` set ((k, v) # es). j = overwrittenKey x \<and> truthy (map_of ps x)"
          then obtain x where x: "x \<in> insert k (fst ` set es)" "j = overwrittenKey x" "truthy (map_of ps x)"
            unfolding r0 by blast
          have "x \<notin> fst ` set es" using False x(2) by blast
          then have "x = k" using x(1) by blast
          then show "j = overwrittenKey k \<and> truthy (map_of ps k)" using x by simp
        next
          assume "j = overwrittenKey k \<and> truthy (map_of ps k)"
          then show "\<exists>x \<in> fst ` set ((k, v) # es). j = overwrittenKey x \<and> truthy (map_of ps x)"
            unfolding r0 by blast
        qed
        have jn': "j \<notin> fst ` set ((k, v) # es)" using jn jk by simp
        have l': "enrichedLookup ?ps1 es j = map_of ?ps1 j"
          unfolding enrichedLookup_def by (simp only: l jn if_False)
        have r': "enrichedLookup ps ((k, v) # es) j =
            (if j = overwrittenKey k \<and> truthy (map_of ps k) then map_of ps (drop 18 j) else map_of ps j)"
          unfolding enrichedLookup_def r by (simp only: jn' if_False)
        show ?thesis
          unfolding l' r' using jk by (simp add: map_of_stepPlain drop_overwrittenKey)
      qed
    qed
  qed
  then show ?case using IH by (simp add: e)
qed

lemma enrichedLookup_perm:
  assumes "distinct (map fst es)" and "mset es' = mset es"
  shows "enrichedLookup ps es' j = enrichedLookup ps es j"
proof -
  have s: "set es' = set es" using assms(2) by (rule mset_eq_setD)
  have "mset (map fst es') = mset (map fst es)" using assms(2) by simp
  then have d: "distinct (map fst es')" using assms(1) by (metis distinct_count_atmost_1 set_mset_mset)
  have m: "map_of es' = map_of es"
    using map_of_inject_set [OF d assms(1)] s by simp
  show ?thesis by (simp only: enrichedLookup_def s m)
qed

text \<open>
  C8, as the code has it. Let the supplemental keys be distinct, none of them being
  \<open>__proto__\<close> or \<open>overwrittenFields.k\<close> for a supplemental key \<open>k\<close>. Then the enriched
  record holds every supplemental value at its key and reads the same at every key, the
  bookkeeping keys included, in whatever order the supplemental fields are applied; and for
  each supplemental key at which the record held a truthy value, the bookkeeping entry holds
  that value. The key \<open>__proto__\<close> is left out because assigning an object to it replaces
  the prototype of the record, through which the steps that follow read their keys: with the
  supplemental fields \<open>__proto__ = {env: x}\<close> and \<open>env = y\<close> the program writes
  \<open>overwrittenFields.env = x\<close> when \<open>__proto__\<close> comes first and nothing when it comes last.
\<close>

theorem C8_order_of_supplemental_keys:
  assumes "distinct (map fst extraFields)" and "mset reordered = mset extraFields"
    and "\<forall>k \<in> fst ` set extraFields. overwrittenKey k \<notin> fst ` set extraFields"
    and "str ''__proto__'' \<notin> fst ` set extraFields"
  shows "\<exists>r r'. enrich (Obj Plain recordFields) extraFields = Inr r \<and>
               enrich (Obj Plain recordFields) reordered = Inr r' \<and>
               (\<forall>j. getProp r' j = getProp r j) \<and>
               (\<forall>k \<in> fst ` set extraFields. getProp r k = map_of extraFields k) \<and>
               (\<forall>k \<in> fst ` set extraFields.
                  truthy (map_of recordFields k) \<longrightarrow>
                  getProp r (overwrittenKey k) = map_of recordFields k)"
proof -
  have s: "set reordered = set extraFields" using assms(2) by (rule mset_eq_setD)
  have "mset (map fst reordered) = mset (map fst extraFields)" using assms(2) by simp
  then have d: "distinct (map fst reordered)"
    using assms(1) by (metis distinct_count_atmost_1 set_mset_mset)
  have ni: "\<forall>k \<in> fst ` set reordered. overwrittenKey k \<notin> fst ` set reordered"
    using assms(3) s by simp
  have 1: "map_of (foldl stepPlain recordFields reordered) j =
           map_of (foldl stepPlain recordFields extraFields) j" for j
    using foldl_stepPlain_lookup [OF d ni] foldl_stepPlain_lookup [OF assms(1,3)]
      enrichedLookup_perm [OF assms(1,2)] by simp
  have 2: "map_of (foldl stepPlain recordFields extraFields) (overwrittenKey k) = map_of recordFields k"
    if "k \<in> fst ` set extraFields" "truthy (map_of recordFields k)" for k
  proof -
    have "overwrittenKey k \<notin> fst ` set extraFields" using assms(3) that by blast
    then show ?thesis
      using that foldl_stepPlain_lookup [OF assms(1,3), of recordFields "overwrittenKey k"]
      by (auto simp: enrichedLookup_def drop_overwrittenKey)
  qed
  have 3: "map_of (foldl stepPlain recordFields extraFields) k = map_of extraFields k"
    if "k \<in> fst ` set extraFields" for k
  proof -
    have "k \<noteq> str ''__proto__''" using assms(4) that by blast
    then have "\<not> setterIgnored recordFields k" by (simp add: setterIgnored_def)
    then show ?thesis
      using that foldl_stepPlain_lookup [OF assms(1,3), of recordFields k]
      by (simp add: enrichedLookup_def)
  qed
  have g: "getProp (Obj Plain qs) j = map_of qs j" for qs j
    by (simp split: option.splits)
  show ?thesis
  proof (intro exI conjI)
    show "enrich (Obj Plain recordFields) extraFields =
            Inr (Obj Plain (foldl stepPlain recordFields extraFields))"
      by (rule enrich_plain)
    show "enrich (Obj Plain recordFields) reordered =
            Inr (Obj Plain (foldl stepPlain recordFields reordered))"
      by (rule enrich_plain)
    show "\<forall>j. getProp (Obj Plain (foldl stepPlain recordFields reordered)) j =
               getProp (Obj Plain (foldl stepPlain recordFields extraFields)) j"
      unfolding g using 1 by blast
    show "\<forall>k \<in> fst ` set extraFields.
            getProp (Obj Plain (foldl stepPlain recordFields extraFields)) k = map_of extraFields k"
      unfolding g using 3 by blast
    show "\<forall>k \<in> fst ` set extraFields.
            truthy (map_of recordFields k) \<longrightarrow>
            getProp (Obj Plain (foldl stepPlain recordFields extraFields)) (overwrittenKey k) =
              map_of recordFields k"
      unfolding g using 2 by blast
  qed
qed

text \<open>
  The claim as stated fails when a supplemental key is the bookkeeping name of another: with
  \<open>stage = CODE\<close> applied before \<open>overwrittenFields.stage = x\<close>, the entry
  \<open>overwrittenFields.stage\<close> holds \<open>x\<close> and not the value \<open>PROD\<close> that \<open>stage\<close> had before the
  enrichment; in the other order it holds \<open>PROD\<close>.
\<close>

theorem C8_counterexample:
  "enrich (Obj Plain [(str ''stage'', JStr (str ''PROD''))])
       [(str ''stage'', JStr (str ''CODE'')), (overwrittenKey (str ''stage''), JStr (str ''x''))] =
     Inr (Obj Plain [(str ''stage'', JStr (str ''CODE'')),
                     (overwrittenKey (str ''stage''), JStr (str ''x'')),
                     (overwrittenKey (overwrittenKey (str ''stage'')), JStr (str ''PROD''))]) \<and>
   enrich (Obj Plain [(str ''stage'', JStr (str ''PROD''))])
       [(overwrittenKey (str ''stage''), JStr (str ''x'')), (str ''stage'', JStr (str ''CODE''))] =
     Inr (Obj Plain [(str ''stage'', JStr (str ''CODE'')),
                     (overwrittenKey (str ''stage''), JStr (str ''PROD''))])"
  by (simp add: enrichStep_def assignOwn_def overwrittenKey_def str_def)

text \<open>Two supplemental fields in both orders, on a record that has one of the keys.\<close>

theorem C8_witness:
  "enrich (Obj Plain [(str ''env'', JStr (str ''prod'')), (str ''message'', JStr (str ''hi''))])
       [(str ''env'', JStr (str ''staging'')), (str ''region'', JStr (str ''eu''))] =
     Inr (Obj Plain [(str ''env'', JStr (str ''staging'')), (str ''message'', JStr (str ''hi'')),
                     (overwrittenKey (str ''env''), JStr (str ''prod'')),
                     (str ''region'', JStr (str ''eu''))]) \<and>
   enrich (Obj Plain [(str ''env'', JStr (str ''prod'')), (str ''message'', JStr (str ''hi''))])
       [(str ''region'', JStr (str ''eu'')), (str ''env'', JStr (str ''staging''))] =
     Inr (Obj Plain [(str ''env'', JStr (str ''staging'')), (str ''message'', JStr (str ''hi'')),
                     (str ''region'', JStr (str ''eu'')),
                     (overwrittenKey (str ''env''), JStr (str ''prod''))]) \<and>
   (\<forall>j. getProp (Obj Plain [(str ''env'', JStr (str ''staging'')), (str ''message'', JStr (str ''hi'')),
                     (str ''region'', JStr (str ''eu'')),
                     (overwrittenKey (str ''env''), JStr (str ''prod''))]) j =
        getProp (Obj Plain [(str ''env'', JStr (str ''staging'')), (str ''message'', JStr (str ''hi'')),
                     (overwrittenKey (str ''env''), JStr (str ''prod'')),
                     (str ''region'', JStr (str ''eu''))]) j) \<and>
   getProp (Obj Plain [(str ''env'', JStr (str ''staging'')), (str ''message'', JStr (str ''hi'')),
                     (overwrittenKey (str ''env''), JStr (str ''prod'')),
                     (str ''region'', JStr (str ''eu''))]) (str ''env'') =
     Some (JStr (str ''staging'')) \<and>
   getProp (Obj Plain [(str ''env'', JStr (str ''staging'')), (str ''message'', JStr (str ''hi'')),
                     (overwrittenKey (str ''env''), JStr (str ''prod'')),
                     (str ''region'', JStr (str ''eu''))]) (str ''region'') =
     Some (JStr (str ''eu'')) \<and>
   getProp (Obj Plain [(str ''env'', JStr (str ''staging'')), (str ''message'', JStr (str ''hi'')),
                     (overwrittenKey (str ''env''), JStr (str ''prod'')),
                     (str ''region'', JStr (str ''eu''))]) (overwrittenKey (str ''env'')) =
     Some (JStr (str ''prod''))"
proof -
  have 1: "enrich (Obj Plain [(str ''env'', JStr (str ''prod'')), (str ''message'', JStr (str ''hi''))])
       [(str ''env'', JStr (str ''staging'')), (str ''region'', JStr (str ''eu''))] =
     Inr (Obj Plain [(str ''env'', JStr (str ''staging'')), (str ''message'', JStr (str ''hi'')),
                     (overwrittenKey (str ''env''), JStr (str ''prod'')),
                     (str ''region'', JStr (str ''eu''))])"
    by (simp add: enrichStep_def assignOwn_def overwrittenKey_def str_def)
  have 2: "enrich (Obj Plain [(str ''env'', JStr (str ''prod'')), (str ''message'', JStr (str ''hi''))])
       [(str ''region'', JStr (str ''eu'')), (str ''env'', JStr (str ''staging''))] =
     Inr (Obj Plain [(str ''env'', JStr (str ''staging'')), (str ''message'', JStr (str ''hi'')),
                     (str ''region'', JStr (str ''eu'')),
                     (overwrittenKey (str ''env''), JStr (str ''prod''))])"
    by (simp add: enrichStep_def assignOwn_def overwrittenKey_def str_def)
  have h1: "distinct (map fst [(str ''env'', JStr (str ''staging'')), (str ''region'', JStr (str ''eu''))])"
    by (simp add: str_def)
  have h2: "mset [(str ''region'', JStr (str ''eu'')), (str ''env'', JStr (str ''staging''))] =
            mset [(str ''env'', JStr (str ''staging'')), (str ''region'', JStr (str ''eu''))]"
    by (simp add: add_mset_commute)
  have h3: "\<forall>k \<in> fst ` set [(str ''env'', JStr (str ''staging'')), (str ''region'', JStr (str ''eu''))].
              overwrittenKey k \<notin> fst ` set [(str ''env'', JStr (str ''staging'')), (str ''region'', JStr (str ''eu''))]"
    by (simp add: overwrittenKey_def str_def)
  have h4: "str ''__proto__'' \<notin> fst ` set [(str ''env'', JStr (str ''staging'')), (str ''region'', JStr (str ''eu''))]"
    by (simp add: str_def)
  have t: "str ''env'' \<in> fst ` set [(str ''env'', JStr (str ''staging'')), (str ''region'', JStr (str ''eu''))]"
    "str ''region'' \<in> fst ` set [(str ''env'', JStr (str ''staging'')), (str ''region'', JStr (str ''eu''))]"
    "truthy (map_of [(str ''env'', JStr (str ''prod'')), (str ''message'', JStr (str ''hi''))] (str ''env''))"
    "map_of [(str ''env'', JStr (str ''prod'')), (str ''message'', JStr (str ''hi''))] (str ''env'') =
       Some (JStr (str ''prod''))"
    "map_of [(str ''env'', JStr (str ''staging'')), (str ''region'', JStr (str ''eu''))] (str ''env'') =
       Some (JStr (str ''staging''))"
    "map_of [(str ''env'', JStr (str ''staging'')), (str ''region'', JStr (str ''eu''))] (str ''region'') =
       Some (JStr (str ''eu''))"
    by (simp_all add: str_def)
  from C8_order_of_supplemental_keys [OF h1 h2 h3 h4,
      of "[(str ''env'', JStr (str ''prod'')), (str ''message'', JStr (str ''hi''))]"]
  show ?thesis
    unfolding 1 2 using t by auto
qed

end
